theory Spec2Isabelle
  imports Main "HOL-Library.Sublist"
begin

section \<open>The required-expansions-write lint rule of evergreen\_lint\<close>

text \<open>
  A shallow embedding of
  \<^verbatim>\<open>evergreen_lint/rules/required_expansions_write.py\<close>
  (class \<^verbatim>\<open>RequiredExpansionsWrite\<close>). The rule reads an already parsed YAML
  document and returns a list of error strings. Python exceptions are values of the
  left summand of a sum type, so that every place where the source can raise is a
  branch of the model.
\<close>

subsection \<open>Parsed YAML values and Python primitives\<close>

text \<open>
  A parsed YAML value. A Python \<^verbatim>\<open>dict\<close> with string keys is an association
  list; \<^verbatim>\<open>key in d\<close> and \<^verbatim>\<open>d[key]\<close> go through \<open>map_of\<close>.
  Floating point scalars are left out.
\<close>

datatype yaml =
    YNone
  | YBool bool
  | YInt int
  | YStr string
  | YList "yaml list"
  | YDict "(string \<times> yaml) list"

type_synonym dict = "(string \<times> yaml) list"

text \<open>The exceptions the rule body can raise.\<close>

datatype py_error = AttributeError | TypeError | KeyError

text \<open>Sequencing of computations that may raise.\<close>

definition bind :: "py_error + 'a \<Rightarrow> ('a \<Rightarrow> py_error + 'b) \<Rightarrow> py_error + 'b" where
  "bind m f = (case m of Inl e \<Rightarrow> Inl e | Inr x \<Rightarrow> f x)"

text \<open>
  \<^verbatim>\<open>x in s\<close> for a \<^verbatim>\<open>Set[str]\<close>: the value is hashed first, and lists and dicts
  are unhashable (\<^verbatim>\<open>TypeError\<close>); a hashable value that is not a string equals
  no member.
\<close>

fun hashable :: "yaml \<Rightarrow> bool" where
  "hashable (YList _) = False"
| "hashable (YDict _) = False"
| "hashable _ = True"

fun py_in_set :: "yaml \<Rightarrow> string set \<Rightarrow> py_error + bool" where
  "py_in_set (YStr s) S = Inr (s \<in> S)"
| "py_in_set (YList _) S = Inl TypeError"
| "py_in_set (YDict _) S = Inl TypeError"
| "py_in_set _ S = Inr False"

text \<open>Python truthiness of a value.\<close>

fun truthy :: "yaml \<Rightarrow> bool" where
  "truthy YNone = False"
| "truthy (YBool b) = b"
| "truthy (YInt i) = (i \<noteq> 0)"
| "truthy (YStr s) = (s \<noteq> [])"
| "truthy (YList xs) = (xs \<noteq> [])"
| "truthy (YDict d) = (d \<noteq> [])"

text \<open>Decimal rendering of an index inside an f-string.\<close>

definition digit_char :: "nat \<Rightarrow> char" where
  "digit_char d = ''0123456789'' ! d"

fun str_nat :: "nat \<Rightarrow> string" where
  "str_nat n = (if n < 10 then [digit_char n] else str_nat (n div 10) @ [digit_char (n mod 10)])"

declare str_nat.simps [simp del]

definition str_int :: "int \<Rightarrow> string" where
  "str_int i = (if i < 0 then CHR ''-'' # str_nat (nat (- i)) else str_nat (nat i))"

text \<open>
  What the interpreter contributes to the text of a message and the rule does not
  determine: \<open>container_str\<close> is \<^verbatim>\<open>str(v)\<close> for a list or a dict, and
  \<open>set_list_str\<close> is \<^verbatim>\<open>str(list(s))\<close> for a set of strings (its order is the
  set's iteration order).
\<close>

record runtime =
  container_str :: "yaml \<Rightarrow> string"
  set_list_str :: "string set \<Rightarrow> string"

fun py_str :: "runtime \<Rightarrow> yaml \<Rightarrow> string" where
  "py_str rt (YStr s) = s"
| "py_str rt YNone = ''None''"
| "py_str rt (YBool b) = (if b then ''True'' else ''False'')"
| "py_str rt (YInt i) = str_int i"
| "py_str rt (YList xs) = container_str rt (YList xs)"
| "py_str rt (YDict d) = container_str rt (YDict d)"

subsection \<open>The module evergreen\_lint.helpers\<close>

text \<open>
  The rule imports its structural predicates and its document iterators from
  \<^verbatim>\<open>evergreen_lint.helpers\<close>. They are parameters of the model: four predicates on
  one command, and two iterators over the document. \<open>iterate_command_lists\<close> yields a
  label and either a single command (a function with a dict body) or a list of
  commands; \<open>iterate_fn_calls_context\<close> yields a label, a function call and the list
  that holds it.
\<close>

datatype commands = CommandsDict dict | CommandsList "dict list"

record helpers =
  match_expansions_write :: "dict \<Rightarrow> bool"
  match_subprocess_exec :: "dict \<Rightarrow> bool"
  match_expansions_update :: "dict \<Rightarrow> bool"
  match_timeout_update :: "dict \<Rightarrow> bool"
  iterate_command_lists :: "dict \<Rightarrow> (string \<times> commands) list"
  iterate_fn_calls_context :: "dict \<Rightarrow> (string \<times> dict \<times> dict list) list"

subsection \<open>The four sets of function names\<close>

record fn_sets =
  expansions_write_fns :: "string set"
  subprocess_exec_fns :: "string set"
  expansions_update_fns :: "string set"
  timeout_update_fns :: "string set"

definition empty_fn_sets :: fn_sets where
  "empty_fn_sets = \<lparr>expansions_write_fns = {}, subprocess_exec_fns = {},
     expansions_update_fns = {}, timeout_update_fns = {}\<rparr>"

subsection \<open>Messages (lines 105 to 114)\<close>

definition out_message_dangerous_function :: "runtime \<Rightarrow> fn_sets \<Rightarrow> string \<Rightarrow> string" where
  "out_message_dangerous_function rt fns ctx =
     ctx @ '' cannot safely take arguments. Call expansions.write with params: file: expansions.yml; redacted: true, (or use one of these functions: ''
       @ set_list_str rt (expansions_write_fns fns)
       @ '') in the function, or do not pass arguments to it.''"

definition out_message_expansions_update :: "runtime \<Rightarrow> fn_sets \<Rightarrow> string \<Rightarrow> string \<Rightarrow> string" where
  "out_message_expansions_update rt fns ctx fname =
     ctx @ '' is an '' @ fname
       @ '' command that is not immediately followed by an expansions.write call. Always call expansions.write with params: file: expansions.yml; redacted: true, (or use one of these functions: ''
       @ set_list_str rt (expansions_write_fns fns)
       @ '') after calling '' @ fname @ ''.''"

definition out_message_subprocess :: "runtime \<Rightarrow> fn_sets \<Rightarrow> string \<Rightarrow> string" where
  "out_message_subprocess rt fns ctx =
     ctx @ '' calls an evergreen shell script without a preceding expansions.write call. Always call expansions.write with params: file: expansions.yml; redacted: true, (or use one of these functions: ''
       @ set_list_str rt (expansions_write_fns fns)
       @ '') before calling an evergreen shell script via subprocess.exec.''"

subsection \<open>Step predicates (lines 116 to 140)\<close>

text \<open>
  \<^verbatim>\<open>helpers.match_x(command) or ("func" in command and command["func"] in x_fns)\<close>:
  the membership test runs only when the helper says no and the key is there.
\<close>

definition func_in :: "dict \<Rightarrow> string set \<Rightarrow> py_error + bool" where
  "func_in command S =
     (case map_of command ''func'' of None \<Rightarrow> Inr False | Some v \<Rightarrow> py_in_set v S)"

definition is_expansions_write_or_fn :: "helpers \<Rightarrow> fn_sets \<Rightarrow> dict \<Rightarrow> py_error + bool" where
  "is_expansions_write_or_fn h fns command =
     (if match_expansions_write h command then Inr True
      else func_in command (expansions_write_fns fns))"

definition is_subprocess_exec_or_fn :: "helpers \<Rightarrow> fn_sets \<Rightarrow> dict \<Rightarrow> py_error + bool" where
  "is_subprocess_exec_or_fn h fns command =
     (if match_subprocess_exec h command then Inr True
      else func_in command (subprocess_exec_fns fns))"

definition is_expansions_update_or_fn :: "helpers \<Rightarrow> fn_sets \<Rightarrow> dict \<Rightarrow> py_error + bool" where
  "is_expansions_update_or_fn h fns command =
     (if match_expansions_update h command then Inr True
      else func_in command (expansions_update_fns fns))"

definition is_timeout_update_or_fn :: "helpers \<Rightarrow> fn_sets \<Rightarrow> dict \<Rightarrow> py_error + bool" where
  "is_timeout_update_or_fn h fns command =
     (if match_timeout_update h command then Inr True
      else func_in command (timeout_update_fns fns))"

text \<open>
  \<^verbatim>\<open>_context_add_fn\<close>: the command is optional; an empty dict is falsy.
\<close>

definition context_add_fn :: "runtime \<Rightarrow> string \<Rightarrow> dict option \<Rightarrow> string" where
  "context_add_fn rt ctx command =
     (case command of
        None \<Rightarrow> ctx
      | Some c \<Rightarrow>
          (if c \<noteq> [] then
             (case map_of c ''func'' of
                None \<Rightarrow> ctx
              | Some v \<Rightarrow> ctx @ '', (function call: '' @ py_str rt v @ '')'')
           else ctx))"

text \<open>The f-string \<^verbatim>\<open>f"{context}, command {idx}"\<close>.\<close>

definition command_context :: "string \<Rightarrow> nat \<Rightarrow> string" where
  "command_context ctx idx = ctx @ '', command '' @ str_nat idx"

subsection \<open>The command list checker (lines 142 to 204)\<close>

text \<open>
  The locals of \<^verbatim>\<open>_check_command_list\<close>. The loop body is split at the source's own
  blank lines: the bookkeeping of the two first indices (lines 149 to 154), the
  warning (lines 156 to 169), and the check of the step after an update (lines 171 to
  188), which reads none of the locals.
\<close>

record scan_state =
  out :: "string list"
  first_subprocess :: "nat option"
  first_subprocess_cmd :: "dict option"
  first_exp_write :: "nat option"
  warned_subprocess :: bool

definition init_scan_state :: scan_state where
  "init_scan_state = \<lparr>out = [], first_subprocess = None, first_subprocess_cmd = None,
     first_exp_write = None, warned_subprocess = False\<rparr>"

text \<open>
  Lines 149 to 154. Python's \<^verbatim>\<open>and\<close> evaluates the predicate only when the
  index is still \<^verbatim>\<open>None\<close>; the \<^verbatim>\<open>elif\<close> runs only when the first test is false.
\<close>

definition track_first :: "helpers \<Rightarrow> fn_sets \<Rightarrow> scan_state \<Rightarrow> nat \<Rightarrow> dict \<Rightarrow> py_error + scan_state" where
  "track_first h fns st idx command =
     bind (if first_subprocess st = None then is_subprocess_exec_or_fn h fns command else Inr False)
       (\<lambda>is_first_exec.
          if is_first_exec then
            Inr (st\<lparr>first_subprocess := Some idx, first_subprocess_cmd := Some command\<rparr>)
          else
            bind (if first_exp_write st = None then is_expansions_write_or_fn h fns command
                  else Inr False)
              (\<lambda>is_first_write.
                 if is_first_write then Inr (st\<lparr>first_exp_write := Some idx\<rparr>) else Inr st))"

text \<open>Lines 156 to 169.\<close>

definition warn_subprocess ::
  "helpers \<Rightarrow> runtime \<Rightarrow> fn_sets \<Rightarrow> string \<Rightarrow> scan_state \<Rightarrow> nat \<Rightarrow> dict \<Rightarrow> py_error + scan_state" where
  "warn_subprocess h rt fns ctx st idx command =
     bind (if \<not> warned_subprocess st then
             bind (is_subprocess_exec_or_fn h fns command)
               (\<lambda>e. Inr (e \<and> first_exp_write st = None))
           else Inr False)
       (\<lambda>warn.
          if warn then
            Inr (st\<lparr>out := out st @
                   [out_message_subprocess rt fns
                      (context_add_fn rt (command_context ctx idx) (Some command))],
                 warned_subprocess := True\<rparr>)
          else Inr st)"

text \<open>
  Lines 171 to 188: the messages appended for the step at \<open>idx\<close>. The next step is
  read from the whole list, \<^verbatim>\<open>commands[idx + 1]\<close>, after the length test.
\<close>

definition update_check ::
  "helpers \<Rightarrow> runtime \<Rightarrow> fn_sets \<Rightarrow> string \<Rightarrow> dict list \<Rightarrow> nat \<Rightarrow> dict \<Rightarrow> py_error + string list" where
  "update_check h rt fns ctx commands idx command =
     bind (bind (is_expansions_update_or_fn h fns command)
             (\<lambda>u. if u then Inr True else is_timeout_update_or_fn h fns command))
       (\<lambda>is_update.
          if is_update then
            bind (if length commands \<le> idx + 1 then Inr True
                  else bind (is_expansions_write_or_fn h fns (commands ! (idx + 1)))
                         (\<lambda>w. Inr (\<not> w)))
              (\<lambda>unwritten.
                 if unwritten then
                   bind (is_expansions_update_or_fn h fns command)
                     (\<lambda>u. if u then
                            Inr [out_message_expansions_update rt fns
                                   (context_add_fn rt (command_context ctx idx) (Some command))
                                   ''expansions.update'']
                          else
                            bind (is_timeout_update_or_fn h fns command)
                              (\<lambda>t. if t then
                                     Inr [out_message_expansions_update rt fns
                                            (context_add_fn rt (command_context ctx idx) (Some command))
                                            ''timeout.update'']
                                   else Inr []))
                 else Inr [])
          else Inr [])"

text \<open>One iteration of the loop of line 148.\<close>

definition scan_step ::
  "helpers \<Rightarrow> runtime \<Rightarrow> fn_sets \<Rightarrow> string \<Rightarrow> dict list \<Rightarrow> scan_state \<Rightarrow> nat \<times> dict \<Rightarrow> py_error + scan_state" where
  "scan_step h rt fns ctx commands st ic =
     (case ic of (idx, command) \<Rightarrow>
        bind (track_first h fns st idx command)
          (\<lambda>st1. bind (warn_subprocess h rt fns ctx st1 idx command)
             (\<lambda>st2. bind (update_check h rt fns ctx commands idx command)
                (\<lambda>msgs. Inr (st2\<lparr>out := out st2 @ msgs\<rparr>)))))"

text \<open>A \<^verbatim>\<open>for\<close> loop whose body may raise: the first exception ends the loop.\<close>

fun for_each :: "('s \<Rightarrow> 'a \<Rightarrow> py_error + 's) \<Rightarrow> 's \<Rightarrow> 'a list \<Rightarrow> py_error + 's" where
  "for_each body st [] = Inr st"
| "for_each body st (x # xs) =
     (case body st x of Inl e \<Rightarrow> Inl e | Inr st' \<Rightarrow> for_each body st' xs)"

text \<open>Lines 190 to 202: the test after the loop.\<close>

definition fallback :: "runtime \<Rightarrow> fn_sets \<Rightarrow> string \<Rightarrow> scan_state \<Rightarrow> string list" where
  "fallback rt fns ctx st =
     (case (first_subprocess st, first_exp_write st) of
        (Some fs, Some fw) \<Rightarrow>
          (if \<not> warned_subprocess st \<and> fs < fw then
             [out_message_subprocess rt fns
                (context_add_fn rt (command_context ctx fs) (first_subprocess_cmd st))]
           else [])
      | _ \<Rightarrow> [])"

definition scan_commands ::
  "helpers \<Rightarrow> runtime \<Rightarrow> fn_sets \<Rightarrow> string \<Rightarrow> dict list \<Rightarrow> py_error + scan_state" where
  "scan_commands h rt fns ctx commands =
     for_each (scan_step h rt fns ctx commands) init_scan_state (enumerate 0 commands)"

definition check_command_list ::
  "helpers \<Rightarrow> runtime \<Rightarrow> fn_sets \<Rightarrow> string \<Rightarrow> dict list \<Rightarrow> py_error + string list" where
  "check_command_list h rt fns ctx commands =
     bind (scan_commands h rt fns ctx commands)
       (\<lambda>st. Inr (out st @ fallback rt fns ctx st))"

text \<open>The checker with the test after the loop (lines 190 to 202) removed.\<close>

definition check_command_list_no_fallback ::
  "helpers \<Rightarrow> runtime \<Rightarrow> fn_sets \<Rightarrow> string \<Rightarrow> dict list \<Rightarrow> py_error + string list" where
  "check_command_list_no_fallback h rt fns ctx commands =
     bind (scan_commands h rt fns ctx commands) (\<lambda>st. Inr (out st))"

subsection \<open>The rule (lines 206 to 234)\<close>

text \<open>
  Lines 208 to 223, one function of the document: only a dict body is classified, by
  the first predicate that holds.
\<close>

definition classify_fn :: "helpers \<Rightarrow> fn_sets \<Rightarrow> string \<times> yaml \<Rightarrow> fn_sets" where
  "classify_fn h fns fb =
     (case fb of (fname, YDict body) \<Rightarrow>
        (if match_expansions_write h body then
           fns\<lparr>expansions_write_fns := insert fname (expansions_write_fns fns)\<rparr>
         else if match_subprocess_exec h body then
           fns\<lparr>subprocess_exec_fns := insert fname (subprocess_exec_fns fns)\<rparr>
         else if match_expansions_update h body then
           fns\<lparr>expansions_update_fns := insert fname (expansions_update_fns fns)\<rparr>
         else if match_timeout_update h body then
           fns\<lparr>timeout_update_fns := insert fname (timeout_update_fns fns)\<rparr>
         else fns)
      | _ \<Rightarrow> fns)"

text \<open>
  Lines 207 and 208: \<^verbatim>\<open>yaml["functions"].items()\<close> exists only for a dict; any other
  value under the key raises \<^verbatim>\<open>AttributeError\<close>.
\<close>

definition classify_functions :: "helpers \<Rightarrow> dict \<Rightarrow> py_error + fn_sets" where
  "classify_functions h doc =
     (case map_of doc ''functions'' of
        None \<Rightarrow> Inr empty_fn_sets
      | Some (YDict fs) \<Rightarrow> Inr (fold (\<lambda>fb fns. classify_fn h fns fb) fs empty_fn_sets)
      | Some _ \<Rightarrow> Inl AttributeError)"

text \<open>Lines 225 to 228.\<close>

definition check_lists_step ::
  "helpers \<Rightarrow> runtime \<Rightarrow> fn_sets \<Rightarrow> string list \<Rightarrow> string \<times> commands \<Rightarrow> py_error + string list" where
  "check_lists_step h rt fns acc cc =
     (case cc of
        (ctx, CommandsDict _) \<Rightarrow> Inr acc
      | (ctx, CommandsList cs) \<Rightarrow>
          bind (check_command_list h rt fns ctx cs) (\<lambda>errs. Inr (acc @ errs)))"

text \<open>
  Lines 230 to 232: \<^verbatim>\<open>command["func"]\<close> raises \<^verbatim>\<open>KeyError\<close> without the key, and
  the rest of the condition is evaluated left to right.
\<close>

definition dangerous_call :: "fn_sets \<Rightarrow> dict \<Rightarrow> py_error + bool" where
  "dangerous_call fns command =
     (case map_of command ''func'' of
        None \<Rightarrow> Inl KeyError
      | Some f \<Rightarrow>
          bind (py_in_set f (subprocess_exec_fns fns))
            (\<lambda>m. Inr (m \<and> (case map_of command ''vars'' of None \<Rightarrow> False | Some v \<Rightarrow> truthy v))))"

definition check_fn_call_step ::
  "runtime \<Rightarrow> fn_sets \<Rightarrow> string list \<Rightarrow> string \<times> dict \<times> dict list \<Rightarrow> py_error + string list" where
  "check_fn_call_step rt fns acc site =
     (case site of (ctx, command, _) \<Rightarrow>
        bind (dangerous_call fns command)
          (\<lambda>d. Inr (if d then acc @ [out_message_dangerous_function rt fns ctx] else acc)))"

text \<open>
  \<^verbatim>\<open>RequiredExpansionsWrite.__call__\<close>. The parameter \<open>config\<close> is in the signature and
  nowhere in the body.
\<close>

definition call :: "helpers \<Rightarrow> runtime \<Rightarrow> dict \<Rightarrow> dict \<Rightarrow> py_error + string list" where
  "call h rt config doc =
     bind (classify_functions h doc)
       (\<lambda>fns. bind (for_each (check_lists_step h rt fns) [] (iterate_command_lists h doc))
          (\<lambda>out1. for_each (check_fn_call_step rt fns) out1 (iterate_fn_calls_context h doc)))"

text \<open>
  \<^verbatim>\<open>RequiredExpansionsWrite.defaults\<close> (lines 16 to 18); \<open>CHR 0x5C\<close> is the
  backslash of the pattern.
\<close>

definition defaults :: dict where
  "defaults =
     [(''regex'',
       YStr (''.*'' @ [CHR 0x5C] @ ''/evergreen'' @ [CHR 0x5C] @ ''/.*'' @ [CHR 0x5C] @ ''.sh''))]"

subsection \<open>Notions used in the statements and in the proofs\<close>

text \<open>
  A command whose \<^verbatim>\<open>func\<close> value, if it has one, can be hashed: the membership
  tests of lines 116 to 134 cannot raise on it.
\<close>

definition func_hashable :: "dict \<Rightarrow> bool" where
  "func_hashable command =
     (case map_of command ''func'' of None \<Rightarrow> True | Some v \<Rightarrow> hashable v)"

text \<open>
  The messages the check of lines 171 to 188 appends at one step, as a list (empty when
  the check raises).
\<close>

definition update_msgs ::
  "helpers \<Rightarrow> runtime \<Rightarrow> fn_sets \<Rightarrow> string \<Rightarrow> dict list \<Rightarrow> nat \<Rightarrow> dict \<Rightarrow> string list" where
  "update_msgs h rt fns ctx commands idx command =
     (case update_check h rt fns ctx commands idx command of Inl _ \<Rightarrow> [] | Inr l \<Rightarrow> l)"

text \<open>
  The scan is quiet once it has warned or has recorded a first expansions.write: from
  then on the test of line 156 is false.
\<close>

definition quiet :: "scan_state \<Rightarrow> bool" where
  "quiet st = (warned_subprocess st \<or> first_exp_write st \<noteq> None)"

text \<open>
  Reference scan, written from the specification's description of the single pass: at
  each step, the warning when nothing was seen before and the step is a script
  execution, then the messages of the update check; the pass is quiet after the first
  step that is a script execution or an expansions.write. The checker is proved equal
  to it below.
\<close>

fun ref_scan ::
  "(dict \<Rightarrow> bool) \<Rightarrow> (dict \<Rightarrow> bool) \<Rightarrow> (nat \<Rightarrow> dict \<Rightarrow> string) \<Rightarrow> (nat \<Rightarrow> dict \<Rightarrow> string list)
     \<Rightarrow> bool \<Rightarrow> (nat \<times> dict) list \<Rightarrow> string list" where
  "ref_scan E W msg upd q [] = []"
| "ref_scan E W msg upd q ((i, c) # ics) =
     (if \<not> q \<and> E c then [msg i c] else []) @ upd i c
       @ ref_scan E W msg upd (q \<or> E c \<or> W c) ics"

text \<open>
  Invariant of the loop at index \<open>k\<close>: without a warning, a recorded first script
  execution has a recorded expansions.write at an earlier index.
\<close>

definition fallback_inv :: "nat \<Rightarrow> scan_state \<Rightarrow> bool" where
  "fallback_inv k st =
     ((\<not> warned_subprocess st \<longrightarrow>
         (\<forall>i. first_subprocess st = Some i \<longrightarrow> (\<exists>j. first_exp_write st = Some j \<and> j < i)))
      \<and> (\<forall>j. first_exp_write st = Some j \<longrightarrow> j < k))"

text \<open>
  The function definitions of a document: the items of the mapping under
  \<^verbatim>\<open>functions\<close>, none when the key is absent.
\<close>

definition function_defs :: "dict \<Rightarrow> (string \<times> yaml) list" where
  "function_defs doc = (case map_of doc ''functions'' of Some (YDict fs) \<Rightarrow> fs | _ \<Rightarrow> [])"

text \<open>
  A document on which no statement of the rule body raises: the value under
  \<^verbatim>\<open>functions\<close>, when the key is there, is a mapping; every \<^verbatim>\<open>func\<close> value in
  a command list can be hashed; every call site has a \<^verbatim>\<open>func\<close> key with a value
  that can be hashed.
\<close>

definition wf_document :: "helpers \<Rightarrow> dict \<Rightarrow> bool" where
  "wf_document h doc =
     ((case map_of doc ''functions'' of None \<Rightarrow> True | Some (YDict _) \<Rightarrow> True | Some _ \<Rightarrow> False)
      \<and> list_all (\<lambda>cc. case snd cc of CommandsDict _ \<Rightarrow> True
                        | CommandsList cs \<Rightarrow> list_all func_hashable cs)
            (iterate_command_lists h doc)
      \<and> list_all (\<lambda>site. case map_of (fst (snd site)) ''func'' of None \<Rightarrow> False
                          | Some v \<Rightarrow> hashable v)
            (iterate_fn_calls_context h doc))"

text \<open>
  What line 228 adds for one item of \<^verbatim>\<open>iterate_command_lists\<close>, and what line 232
  adds for one call site, as lists (empty when the check raises).
\<close>

definition list_errors :: "helpers \<Rightarrow> runtime \<Rightarrow> fn_sets \<Rightarrow> string \<times> commands \<Rightarrow> string list" where
  "list_errors h rt fns cc =
     (case cc of
        (ctx, CommandsDict _) \<Rightarrow> []
      | (ctx, CommandsList cs) \<Rightarrow>
          (case check_command_list h rt fns ctx cs of Inl _ \<Rightarrow> [] | Inr errs \<Rightarrow> errs))"

definition site_errors :: "runtime \<Rightarrow> fn_sets \<Rightarrow> string \<times> dict \<times> dict list \<Rightarrow> string list" where
  "site_errors rt fns site =
     (case site of (ctx, command, _) \<Rightarrow>
        if dangerous_call fns command = Inr True
        then [out_message_dangerous_function rt fns ctx] else [])"

text \<open>
  The kind of a message, read from the fixed text that ends it (the text after the
  list of function names in the three f-strings of lines 105 to 114).
\<close>

definition is_missing_write_message :: "string \<Rightarrow> bool" where
  "is_missing_write_message m =
     suffix '') before calling an evergreen shell script via subprocess.exec.'' m"

definition is_update_message :: "string \<Rightarrow> bool" where
  "is_update_message m =
     (suffix '') after calling expansions.update.'' m \<or> suffix '') after calling timeout.update.'' m)"

definition is_dangerous_message :: "string \<Rightarrow> bool" where
  "is_dangerous_message m = suffix '') in the function, or do not pass arguments to it.'' m"

subsection \<open>A small instance, for running the rule on concrete documents\<close>

text \<open>
  An instance of the parameters: a command is recognised by its \<^verbatim>\<open>command\<close> key
  alone, the only command list of a document is the one under \<^verbatim>\<open>pre\<close>, and its
  function calls are the call sites.
\<close>

fun dicts_of :: "yaml list \<Rightarrow> dict list" where
  "dicts_of [] = []"
| "dicts_of (YDict d # xs) = d # dicts_of xs"
| "dicts_of (_ # xs) = dicts_of xs"

definition demo_helpers :: helpers where
  "demo_helpers = \<lparr>
     match_expansions_write = (\<lambda>c. map_of c ''command'' = Some (YStr ''expansions.write'')),
     match_subprocess_exec = (\<lambda>c. map_of c ''command'' = Some (YStr ''subprocess.exec'')),
     match_expansions_update = (\<lambda>c. map_of c ''command'' = Some (YStr ''expansions.update'')),
     match_timeout_update = (\<lambda>c. map_of c ''command'' = Some (YStr ''timeout.update'')),
     iterate_command_lists =
       (\<lambda>doc. case map_of doc ''pre'' of
                Some (YList xs) \<Rightarrow> [(''Pre'', CommandsList (dicts_of xs))]
              | _ \<Rightarrow> []),
     iterate_fn_calls_context =
       (\<lambda>doc. case map_of doc ''pre'' of
                Some (YList xs) \<Rightarrow>
                  map (\<lambda>c. (''Pre'', c, dicts_of xs))
                    (filter (\<lambda>c. map_of c ''func'' \<noteq> None) (dicts_of xs))
              | _ \<Rightarrow> [])\<rparr>"

definition demo_runtime :: runtime where
  "demo_runtime = \<lparr>container_str = (\<lambda>v. ''<container>''), set_list_str = (\<lambda>S. ''<names>'')\<rparr>"

definition cmd_exec :: dict where
  "cmd_exec = [(''command'', YStr ''subprocess.exec'')]"

definition cmd_write :: dict where
  "cmd_write = [(''command'', YStr ''expansions.write'')]"

definition cmd_update :: dict where
  "cmd_update = [(''command'', YStr ''expansions.update'')]"

definition cmd_timeout :: dict where
  "cmd_timeout = [(''command'', YStr ''timeout.update'')]"

definition cmd_shell :: dict where
  "cmd_shell = [(''command'', YStr ''shell.exec'')]"

text \<open>
  A document for the instance: four functions (one list-form, one matching no
  predicate), and a \<^verbatim>\<open>pre\<close> list that calls the script-execution function with
  variables and then updates the expansions without writing them.
\<close>

definition call_exec_with_vars :: dict where
  "call_exec_with_vars = [(''func'', YStr ''f_exec''), (''vars'', YDict [(''x'', YInt 1)])]"

definition demo_functions :: dict where
  "demo_functions =
     [(''f_write'', YDict cmd_write), (''f_exec'', YDict cmd_exec),
      (''f_list'', YList [YDict cmd_exec]), (''f_shell'', YDict cmd_shell)]"

definition demo_doc :: dict where
  "demo_doc =
     [(''functions'', YDict demo_functions),
      (''pre'', YList [YDict call_exec_with_vars, YDict cmd_update])]"

definition demo_fns :: fn_sets where
  "demo_fns = \<lparr>expansions_write_fns = {''f_write''}, subprocess_exec_fns = {''f_exec''},
     expansions_update_fns = {}, timeout_update_fns = {}\<rparr>"

text \<open>
  Calls of functions of each class, and the four sets that hold them.
\<close>

definition call_f_write :: dict where
  "call_f_write = [(''func'', YStr ''f_write'')]"

definition call_f_update :: dict where
  "call_f_update = [(''func'', YStr ''f_update'')]"

definition call_f_timeout :: dict where
  "call_f_timeout = [(''func'', YStr ''f_timeout'')]"

definition demo_fns_all :: fn_sets where
  "demo_fns_all = \<lparr>expansions_write_fns = {''f_write''}, subprocess_exec_fns = {''f_exec''},
     expansions_update_fns = {''f_update''}, timeout_update_fns = {''f_timeout''}\<rparr>"

section \<open>Proofs\<close>

subsection \<open>Sequencing\<close>

lemma bind_Inl [simp]: "bind (Inl e) f = Inl e"
  by (simp add: bind_def)

lemma bind_Inr [simp]: "bind (Inr x) f = f x"
  by (simp add: bind_def)

lemma bind_eq_Inr: "bind m f = Inr y \<longleftrightarrow> (\<exists>x. m = Inr x \<and> f x = Inr y)"
  by (cases m) simp_all

lemma track_first_Inr:
  assumes "track_first h fns st i c = Inr st1"
  shows "st1 =
    (if first_subprocess st = None \<and> is_subprocess_exec_or_fn h fns c = Inr True
     then st\<lparr>first_subprocess := Some i, first_subprocess_cmd := Some c\<rparr>
     else if first_exp_write st = None \<and> is_expansions_write_or_fn h fns c = Inr True
     then st\<lparr>first_exp_write := Some i\<rparr>
     else st)"
  using assms
  by (auto simp: track_first_def bind_eq_Inr split: if_splits)

lemma warn_subprocess_Inr:
  assumes "warn_subprocess h rt fns ctx st i c = Inr st2"
  shows "st2 =
    (if \<not> warned_subprocess st \<and> is_subprocess_exec_or_fn h fns c = Inr True
        \<and> first_exp_write st = None
     then st\<lparr>out := out st @
             [out_message_subprocess rt fns (context_add_fn rt (command_context ctx i) (Some c))],
           warned_subprocess := True\<rparr>
     else st)"
  using assms
  by (auto simp: warn_subprocess_def bind_eq_Inr split: if_splits)

lemma scan_step_Inr_parts:
  assumes "scan_step h rt fns ctx commands st (i, c) = Inr st'"
  shows "\<exists>st1 st2 msgs. track_first h fns st i c = Inr st1
     \<and> warn_subprocess h rt fns ctx st1 i c = Inr st2
     \<and> update_check h rt fns ctx commands i c = Inr msgs
     \<and> st' = st2\<lparr>out := out st2 @ msgs\<rparr>"
  using assms by (auto simp: scan_step_def bind_eq_Inr)

lemma scan_step_Inr:
  assumes step: "scan_step h rt fns ctx commands st (i, c) = Inr st'"
    and inv: "\<not> quiet st \<longrightarrow> first_subprocess st = None"
  shows "out st' = out st
           @ (if \<not> quiet st \<and> is_subprocess_exec_or_fn h fns c = Inr True
              then [out_message_subprocess rt fns (context_add_fn rt (command_context ctx i) (Some c))]
              else [])
           @ update_msgs h rt fns ctx commands i c"
    and "quiet st' = (quiet st \<or> is_subprocess_exec_or_fn h fns c = Inr True
                       \<or> is_expansions_write_or_fn h fns c = Inr True)"
    and "\<not> quiet st' \<longrightarrow> first_subprocess st' = None"
proof -
  obtain st1 st2 msgs where
    t: "track_first h fns st i c = Inr st1" and
    w: "warn_subprocess h rt fns ctx st1 i c = Inr st2" and
    u: "update_check h rt fns ctx commands i c = Inr msgs" and
    e: "st' = st2\<lparr>out := out st2 @ msgs\<rparr>"
    using scan_step_Inr_parts [OF step] by blast
  note t' = track_first_Inr [OF t] and w' = warn_subprocess_Inr [OF w]
  show "out st' = out st
           @ (if \<not> quiet st \<and> is_subprocess_exec_or_fn h fns c = Inr True
              then [out_message_subprocess rt fns (context_add_fn rt (command_context ctx i) (Some c))]
              else [])
           @ update_msgs h rt fns ctx commands i c"
    using inv unfolding e w' t' quiet_def by (simp add: update_msgs_def u split: if_splits)
  show "quiet st' = (quiet st \<or> is_subprocess_exec_or_fn h fns c = Inr True
                       \<or> is_expansions_write_or_fn h fns c = Inr True)"
    using inv unfolding e w' t' u quiet_def by (auto split: if_splits)
  show "\<not> quiet st' \<longrightarrow> first_subprocess st' = None"
    using inv unfolding e w' t' u quiet_def by (auto split: if_splits)
qed


lemma scan_loop_Inr:
  assumes "for_each (scan_step h rt fns ctx commands) st ics = Inr st'"
    and "\<not> quiet st \<longrightarrow> first_subprocess st = None"
  shows "out st' = out st @
      ref_scan (\<lambda>c. is_subprocess_exec_or_fn h fns c = Inr True)
        (\<lambda>c. is_expansions_write_or_fn h fns c = Inr True)
        (\<lambda>i c. out_message_subprocess rt fns (context_add_fn rt (command_context ctx i) (Some c)))
        (\<lambda>i c. update_msgs h rt fns ctx commands i c)
        (quiet st) ics"
  using assms
proof (induction ics arbitrary: st)
  case Nil
  then show ?case by simp
next
  case (Cons ic ics)
  obtain i c where ic: "ic = (i, c)" by (cases ic)
  from Cons.prems(1) obtain st1 where
    s1: "scan_step h rt fns ctx commands st (i, c) = Inr st1" and
    r: "for_each (scan_step h rt fns ctx commands) st1 ics = Inr st'"
    by (auto simp: ic split: sum.splits)
  note f = scan_step_Inr [OF s1 Cons.prems(2)]
  from Cons.IH [OF r f(3)] show ?case
    by (simp add: ic f(1) f(2))
qed


lemma fallback_inv_step:
  assumes step: "scan_step h rt fns ctx commands st (k, c) = Inr st'"
    and inv: "fallback_inv k st"
  shows "fallback_inv (Suc k) st'"
proof -
  obtain st1 st2 msgs where
    t: "track_first h fns st k c = Inr st1" and
    w: "warn_subprocess h rt fns ctx st1 k c = Inr st2" and
    e: "st' = st2\<lparr>out := out st2 @ msgs\<rparr>"
    using scan_step_Inr_parts [OF step] by blast
  note t' = track_first_Inr [OF t] and w' = warn_subprocess_Inr [OF w]
  show ?thesis
    using inv unfolding e w' t' fallback_inv_def by (auto split: if_splits)
qed

lemma fallback_inv_loop:
  assumes "for_each (scan_step h rt fns ctx commands) st (enumerate k xs) = Inr st'"
    and "fallback_inv k st"
  shows "fallback_inv (k + length xs) st'"
  using assms
proof (induction xs arbitrary: st k)
  case Nil
  then show ?case by simp
next
  case (Cons c xs)
  from Cons.prems(1) obtain st1 where
    s1: "scan_step h rt fns ctx commands st (k, c) = Inr st1" and
    r: "for_each (scan_step h rt fns ctx commands) st1 (enumerate (Suc k) xs) = Inr st'"
    by (auto split: sum.splits)
  from Cons.IH [OF r fallback_inv_step [OF s1 Cons.prems(2)]] show ?case by simp
qed

lemma fallback_inv_init: "fallback_inv 0 init_scan_state"
  by (simp add: fallback_inv_def init_scan_state_def)

lemma fallback_unreachable:
  assumes "fallback_inv k st"
  shows "fallback rt fns ctx st = []"
  using assms by (auto simp: fallback_def fallback_inv_def split: option.splits)

lemma scan_commands_fallback:
  assumes "scan_commands h rt fns ctx commands = Inr st"
  shows "fallback rt fns ctx st = []"
  using fallback_unreachable [OF fallback_inv_loop [OF assms [unfolded scan_commands_def] fallback_inv_init]] .

lemma py_in_set_total: "hashable v \<Longrightarrow> \<exists>b. py_in_set v S = Inr b"
  by (cases v) auto

lemma func_in_total: "func_hashable c \<Longrightarrow> \<exists>b. func_in c S = Inr b"
  by (auto simp: func_hashable_def func_in_def py_in_set_total split: option.splits)

lemma is_write_total: "func_hashable c \<Longrightarrow> \<exists>b. is_expansions_write_or_fn h fns c = Inr b"
  by (auto simp: is_expansions_write_or_fn_def func_in_total)

lemma is_exec_total: "func_hashable c \<Longrightarrow> \<exists>b. is_subprocess_exec_or_fn h fns c = Inr b"
  by (auto simp: is_subprocess_exec_or_fn_def func_in_total)

lemma is_update_total: "func_hashable c \<Longrightarrow> \<exists>b. is_expansions_update_or_fn h fns c = Inr b"
  by (auto simp: is_expansions_update_or_fn_def func_in_total)

lemma is_timeout_total: "func_hashable c \<Longrightarrow> \<exists>b. is_timeout_update_or_fn h fns c = Inr b"
  by (auto simp: is_timeout_update_or_fn_def func_in_total)

lemma update_check_value:
  assumes u: "is_expansions_update_or_fn h fns c = Inr u"
    and t: "is_timeout_update_or_fn h fns c = Inr t"
    and w: "Suc i < length commands \<longrightarrow>
              is_expansions_write_or_fn h fns (commands ! Suc i) = Inr w"
  shows "update_check h rt fns ctx commands i c =
     Inr (if (u \<or> t) \<and> \<not> (Suc i < length commands \<and> w)
          then [out_message_expansions_update rt fns
                  (context_add_fn rt (command_context ctx i) (Some c))
                  (if u then ''expansions.update'' else ''timeout.update'')]
          else [])"
proof (cases "Suc i < length commands")
  case True
  then show ?thesis using u t w by (simp add: update_check_def)
next
  case False
  then show ?thesis using u t by (simp add: update_check_def)
qed

subsection \<open>The kind of each message\<close>

lemma subprocess_kind:
  "is_missing_write_message (out_message_subprocess rt fns c)"
  "\<not> is_update_message (out_message_subprocess rt fns c)"
  "\<not> is_dangerous_message (out_message_subprocess rt fns c)"
  by (simp_all add: is_missing_write_message_def is_update_message_def is_dangerous_message_def
      out_message_subprocess_def suffix_to_prefix)

lemma update_kind:
  "\<not> is_missing_write_message (out_message_expansions_update rt fns c ''expansions.update'')"
  "is_update_message (out_message_expansions_update rt fns c ''expansions.update'')"
  "\<not> is_dangerous_message (out_message_expansions_update rt fns c ''expansions.update'')"
  by (simp_all add: is_missing_write_message_def is_update_message_def is_dangerous_message_def
      out_message_expansions_update_def suffix_to_prefix)

lemma timeout_kind:
  "\<not> is_missing_write_message (out_message_expansions_update rt fns c ''timeout.update'')"
  "is_update_message (out_message_expansions_update rt fns c ''timeout.update'')"
  "\<not> is_dangerous_message (out_message_expansions_update rt fns c ''timeout.update'')"
  by (simp_all add: is_missing_write_message_def is_update_message_def is_dangerous_message_def
      out_message_expansions_update_def suffix_to_prefix)

lemma dangerous_kind:
  "\<not> is_missing_write_message (out_message_dangerous_function rt fns c)"
  "\<not> is_update_message (out_message_dangerous_function rt fns c)"
  "is_dangerous_message (out_message_dangerous_function rt fns c)"
  by (simp_all add: is_missing_write_message_def is_update_message_def is_dangerous_message_def
      out_message_dangerous_function_def suffix_to_prefix)

lemma wording_differs:
  "out_message_expansions_update rt fns c ''expansions.update''
     \<noteq> out_message_expansions_update rt fns c ''timeout.update''"
  by (simp add: out_message_expansions_update_def)

subsection \<open>The reference scan\<close>

lemma ref_scan_filter_msg:
  assumes "\<And>i c. P (msg i c)" and "\<And>i c m. m \<in> set (upd i c) \<Longrightarrow> \<not> P m"
  shows "filter P (ref_scan E W msg upd q ics) =
    (if q then []
     else (case find (\<lambda>ic. E (snd ic) \<or> W (snd ic)) ics of
             None \<Rightarrow> []
           | Some ic \<Rightarrow> if E (snd ic) then [msg (fst ic) (snd ic)] else []))"
proof (induction ics arbitrary: q)
  case Nil
  then show ?case by simp
next
  case (Cons ic ics)
  obtain i c where ic: "ic = (i, c)" by (cases ic)
  have u: "filter P (upd i c) = []" using assms(2) by (auto simp: filter_empty_conv)
  show ?case using assms(1) by (simp add: ic Cons.IH u)
qed

lemma ref_scan_filter_upd:
  assumes "\<And>i c. \<not> P (msg i c)" and "\<And>i c m. m \<in> set (upd i c) \<Longrightarrow> P m"
  shows "filter P (ref_scan E W msg upd q ics) = concat (map (\<lambda>ic. upd (fst ic) (snd ic)) ics)"
proof (induction ics arbitrary: q)
  case Nil
  then show ?case by simp
next
  case (Cons ic ics)
  obtain i c where ic: "ic = (i, c)" by (cases ic)
  have u: "filter P (upd i c) = upd i c" using assms(2) by (auto simp: filter_id_conv)
  show ?case using assms(1) by (simp add: ic Cons.IH u)
qed

lemma map_enumerate_nth:
  "map f (enumerate 0 xs) = map (\<lambda>i. f (i, xs ! i)) [0..<length xs]"
  by (rule nth_equalityI) (simp_all add: nth_enumerate_eq)

lemma find_enumerate_Some:
  "find (\<lambda>ic. Q (snd ic)) (enumerate 0 xs) = Some ic \<longleftrightarrow>
     (fst ic < length xs \<and> snd ic = xs ! fst ic \<and> Q (xs ! fst ic)
       \<and> (\<forall>j<fst ic. \<not> Q (xs ! j)))"
  by (cases ic) (auto simp: find_Some_iff nth_enumerate_eq)

lemma find_enumerate_None:
  "find (\<lambda>ic. Q (snd ic)) (enumerate 0 xs) = None \<longleftrightarrow> (\<forall>i<length xs. \<not> Q (xs ! i))"
  by (auto simp: find_None_iff in_set_conv_nth nth_enumerate_eq)

lemma update_check_Inr:
  assumes "update_check h rt fns ctx commands i c = Inr l"
  shows "l = [] \<or>
    l = [out_message_expansions_update rt fns (context_add_fn rt (command_context ctx i) (Some c))
           ''expansions.update''] \<or>
    l = [out_message_expansions_update rt fns (context_add_fn rt (command_context ctx i) (Some c))
           ''timeout.update'']"
  using assms
  by (auto simp: update_check_def bind_eq_Inr split: if_splits)

subsection \<open>The checker returns, and equals the reference scan\<close>

lemma track_first_total:
  assumes "func_hashable c"
  shows "\<exists>st1. track_first h fns st i c = Inr st1"
proof -
  obtain e w where "is_subprocess_exec_or_fn h fns c = Inr e"
    "is_expansions_write_or_fn h fns c = Inr w"
    using is_exec_total [OF assms] is_write_total [OF assms] by blast
  then show ?thesis by (simp add: track_first_def)
qed

lemma warn_subprocess_total:
  assumes "func_hashable c"
  shows "\<exists>st2. warn_subprocess h rt fns ctx st i c = Inr st2"
proof -
  obtain e where "is_subprocess_exec_or_fn h fns c = Inr e"
    using is_exec_total [OF assms] by blast
  then show ?thesis by (simp add: warn_subprocess_def)
qed

lemma update_check_total:
  assumes "func_hashable c" and "Suc i < length commands \<Longrightarrow> func_hashable (commands ! Suc i)"
  shows "\<exists>l. update_check h rt fns ctx commands i c = Inr l"
proof -
  obtain u t where ut: "is_expansions_update_or_fn h fns c = Inr u"
    "is_timeout_update_or_fn h fns c = Inr t"
    using is_update_total [OF assms(1)] is_timeout_total [OF assms(1)] by blast
  show ?thesis
  proof (cases "Suc i < length commands")
    case True
    then obtain w where "is_expansions_write_or_fn h fns (commands ! Suc i) = Inr w"
      using is_write_total [OF assms(2)] by blast
    then show ?thesis using update_check_value [OF ut, of i commands w] by simp
  next
    case False
    then show ?thesis using update_check_value [OF ut, of i commands] by simp
  qed
qed

lemma scan_step_total:
  assumes "func_hashable c" and "Suc i < length commands \<Longrightarrow> func_hashable (commands ! Suc i)"
  shows "\<exists>st'. scan_step h rt fns ctx commands st (i, c) = Inr st'"
proof -
  obtain st1 where t: "track_first h fns st i c = Inr st1"
    using track_first_total [OF assms(1)] by blast
  obtain st2 where w: "warn_subprocess h rt fns ctx st1 i c = Inr st2"
    using warn_subprocess_total [OF assms(1)] by blast
  obtain l where u: "update_check h rt fns ctx commands i c = Inr l"
    using update_check_total [OF assms] by blast
  show ?thesis by (simp add: scan_step_def t w u)
qed

lemma scan_loop_total:
  assumes "list_all func_hashable commands" and "list_all (\<lambda>ic. func_hashable (snd ic)) ics"
  shows "\<exists>st'. for_each (scan_step h rt fns ctx commands) st ics = Inr st'"
  using assms(2)
proof (induction ics arbitrary: st)
  case Nil
  then show ?case by simp
next
  case (Cons ic ics)
  obtain i c where ic: "ic = (i, c)" by (cases ic)
  have hc: "func_hashable c" using Cons.prems by (simp add: ic)
  have nx: "Suc i < length commands \<Longrightarrow> func_hashable (commands ! Suc i)"
    using assms(1) by (simp add: list_all_length)
  obtain st1
    where s: "scan_step h rt fns ctx commands st (i, c) = Inr st1"
    using scan_step_total [OF hc nx] by blast
  from Cons.IH [of st1] Cons.prems show ?case by (simp add: ic s)
qed

lemma scan_commands_total:
  assumes "list_all func_hashable commands"
  shows "\<exists>st. scan_commands h rt fns ctx commands = Inr st"
  unfolding scan_commands_def
proof (rule scan_loop_total [OF assms])
  show "list_all (\<lambda>ic. func_hashable (snd ic)) (enumerate 0 commands)"
    using assms by (auto simp: list_all_iff in_set_enumerate_eq)
qed

lemma check_command_list_ref:
  assumes "check_command_list h rt fns ctx commands = Inr errs"
  shows "errs = ref_scan (\<lambda>c. is_subprocess_exec_or_fn h fns c = Inr True)
        (\<lambda>c. is_expansions_write_or_fn h fns c = Inr True)
        (\<lambda>i c. out_message_subprocess rt fns (context_add_fn rt (command_context ctx i) (Some c)))
        (update_msgs h rt fns ctx commands)
        False (enumerate 0 commands)"
proof -
  from assms obtain st where st: "scan_commands h rt fns ctx commands = Inr st"
    and e: "errs = out st @ fallback rt fns ctx st"
    by (auto simp: check_command_list_def bind_eq_Inr)
  have q: "\<not> quiet init_scan_state" "out init_scan_state = []"
    by (simp_all add: quiet_def init_scan_state_def)
  have i: "\<not> quiet init_scan_state \<longrightarrow> first_subprocess init_scan_state = None"
    by (simp add: init_scan_state_def)
  show ?thesis
    using scan_loop_Inr [OF st [unfolded scan_commands_def] i]
    by (simp add: e scan_commands_fallback [OF st] q)
qed

lemma check_command_list_total:
  assumes "list_all func_hashable commands"
  shows "\<exists>errs. check_command_list h rt fns ctx commands = Inr errs"
proof -
  obtain st where "scan_commands h rt fns ctx commands = Inr st"
    using scan_commands_total [OF assms] by blast
  then show ?thesis by (simp add: check_command_list_def)
qed

lemma update_msgs_kind:
  assumes "m \<in> set (update_msgs h rt fns ctx commands i c)"
  shows "is_update_message m" and "\<not> is_missing_write_message m" and "\<not> is_dangerous_message m"
proof -
  obtain l where l: "update_check h rt fns ctx commands i c = Inr l" and m: "m \<in> set l"
    using assms by (cases "update_check h rt fns ctx commands i c") (simp_all add: update_msgs_def)
  from update_check_Inr [OF l] m
  show "is_update_message m" and "\<not> is_missing_write_message m" and "\<not> is_dangerous_message m"
    by (auto simp: update_kind timeout_kind)
qed

subsection \<open>The messages of each kind in the result\<close>

lemma missing_write_messages:
  assumes "check_command_list h rt fns ctx commands = Inr errs"
  shows "filter is_missing_write_message errs =
    (case find (\<lambda>ic. is_subprocess_exec_or_fn h fns (snd ic) = Inr True
                     \<or> is_expansions_write_or_fn h fns (snd ic) = Inr True) (enumerate 0 commands) of
       None \<Rightarrow> []
     | Some ic \<Rightarrow>
         if is_subprocess_exec_or_fn h fns (snd ic) = Inr True
         then [out_message_subprocess rt fns
                 (context_add_fn rt (command_context ctx (fst ic)) (Some (snd ic)))]
         else [])"
  unfolding check_command_list_ref [OF assms]
  by (subst ref_scan_filter_msg) (simp_all add: subprocess_kind update_msgs_kind)

lemma update_messages:
  assumes "check_command_list h rt fns ctx commands = Inr errs"
  shows "filter is_update_message errs =
    concat (map (\<lambda>i. update_msgs h rt fns ctx commands i (commands ! i)) [0..<length commands])"
  unfolding check_command_list_ref [OF assms]
  by (subst ref_scan_filter_upd) (simp_all add: subprocess_kind update_msgs_kind map_enumerate_nth)

lemma update_check_Inr_value:
  assumes "update_check h rt fns ctx commands i c = Inr l"
  shows "l =
    (if (is_expansions_update_or_fn h fns c = Inr True \<or> is_timeout_update_or_fn h fns c = Inr True)
        \<and> \<not> (Suc i < length commands
              \<and> is_expansions_write_or_fn h fns (commands ! Suc i) = Inr True)
     then [out_message_expansions_update rt fns
             (context_add_fn rt (command_context ctx i) (Some c))
             (if is_expansions_update_or_fn h fns c = Inr True
              then ''expansions.update'' else ''timeout.update'')]
     else [])"
proof -
  from assms obtain u where u: "is_expansions_update_or_fn h fns c = Inr u"
    by (auto simp: update_check_def bind_eq_Inr)
  show ?thesis
  proof (cases u)
    case True
    show ?thesis
    proof (cases "Suc i < length commands")
      case False
      then show ?thesis using assms u True by (simp add: update_check_def)
    next
      case in_range: True
      then obtain w where w: "is_expansions_write_or_fn h fns (commands ! Suc i) = Inr w"
        using assms u True by (auto simp: update_check_def bind_eq_Inr)
      then show ?thesis using assms u True in_range
        by (cases w) (simp_all add: update_check_def)
    qed
  next
    case False
    then obtain t where t: "is_timeout_update_or_fn h fns c = Inr t"
      using assms u by (auto simp: update_check_def bind_eq_Inr)
    show ?thesis
    proof (cases t)
      case nt: False
      then show ?thesis using assms u False t by (simp add: update_check_def)
    next
      case True
      show ?thesis
      proof (cases "Suc i < length commands")
        case nr: False
        then show ?thesis using assms u False t True by (simp add: update_check_def)
      next
        case in_range: True
        then obtain w where w: "is_expansions_write_or_fn h fns (commands ! Suc i) = Inr w"
          using assms u False t True by (auto simp: update_check_def bind_eq_Inr)
        then show ?thesis using assms u False t True in_range
          by (cases w) (simp_all add: update_check_def)
      qed
    qed
  qed
qed

lemma scan_loop_update_checks:
  assumes "for_each (scan_step h rt fns ctx commands) st ics = Inr st'" and "ic \<in> set ics"
  shows "\<exists>l. update_check h rt fns ctx commands (fst ic) (snd ic) = Inr l"
  using assms
proof (induction ics arbitrary: st)
  case Nil
  then show ?case by simp
next
  case (Cons x ics)
  obtain i c where x: "x = (i, c)" by (cases x)
  from Cons.prems(1) obtain st1 where
    s1: "scan_step h rt fns ctx commands st (i, c) = Inr st1" and
    r: "for_each (scan_step h rt fns ctx commands) st1 ics = Inr st'"
    by (auto simp: x split: sum.splits)
  show ?case
  proof (cases "ic = x")
    case True
    then show ?thesis using scan_step_Inr_parts [OF s1] by (auto simp: x)
  next
    case False
    then have "ic \<in> set ics" using Cons.prems(2) by simp
    from Cons.IH [OF r this] show ?thesis .
  qed
qed

lemma update_msgs_Inr_value:
  assumes "check_command_list h rt fns ctx commands = Inr errs" and "i < length commands"
  shows "update_msgs h rt fns ctx commands i (commands ! i) =
    (if (is_expansions_update_or_fn h fns (commands ! i) = Inr True
          \<or> is_timeout_update_or_fn h fns (commands ! i) = Inr True)
        \<and> \<not> (Suc i < length commands
              \<and> is_expansions_write_or_fn h fns (commands ! Suc i) = Inr True)
     then [out_message_expansions_update rt fns
             (context_add_fn rt (command_context ctx i) (Some (commands ! i)))
             (if is_expansions_update_or_fn h fns (commands ! i) = Inr True
              then ''expansions.update'' else ''timeout.update'')]
     else [])"
proof -
  from assms(1) obtain st where st: "scan_commands h rt fns ctx commands = Inr st"
    by (auto simp: check_command_list_def bind_eq_Inr)
  have "(i, commands ! i) \<in> set (enumerate 0 commands)"
    using assms(2) by (simp add: in_set_enumerate_eq)
  from scan_loop_update_checks [OF st [unfolded scan_commands_def] this]
  obtain l where l: "update_check h rt fns ctx commands i (commands ! i) = Inr l" by auto
  show ?thesis
    using update_check_Inr_value [OF l] by (simp add: update_msgs_def l)
qed

lemma missing_write_cases:
  assumes e: "check_command_list h rt fns ctx commands = Inr errs"
  shows "if \<exists>i<length commands. is_subprocess_exec_or_fn h fns (commands ! i) = Inr True
          \<and> (\<forall>j<i. is_expansions_write_or_fn h fns (commands ! j) \<noteq> Inr True)
     then \<exists>i<length commands.
            is_subprocess_exec_or_fn h fns (commands ! i) = Inr True
            \<and> (\<forall>j<i. is_subprocess_exec_or_fn h fns (commands ! j) \<noteq> Inr True)
            \<and> filter is_missing_write_message errs =
                [out_message_subprocess rt fns
                   (context_add_fn rt (command_context ctx i) (Some (commands ! i)))]
     else filter is_missing_write_message errs = []"
proof -
  let ?E = "\<lambda>c. is_subprocess_exec_or_fn h fns c = Inr True"
  let ?W = "\<lambda>c. is_expansions_write_or_fn h fns c = Inr True"
  let ?Q = "\<lambda>c. ?E c \<or> ?W c"
  let ?cond = "\<exists>i<length commands. ?E (commands ! i) \<and> (\<forall>j<i. \<not> ?W (commands ! j))"
  note m = missing_write_messages [OF e]
  show ?thesis
  proof (cases "find (\<lambda>ic. ?Q (snd ic)) (enumerate 0 commands)")
    case None
    moreover have "find (\<lambda>ic. ?Q (snd ic)) (enumerate 0 commands) = None \<longleftrightarrow>
        (\<forall>i<length commands. \<not> ?Q (commands ! i))"
      by (rule find_enumerate_None)
    ultimately have "\<forall>i<length commands. \<not> ?Q (commands ! i)" by blast
    then have "\<not> ?cond" by blast
    then show ?thesis using m None by simp
  next
    case (Some ic)
    moreover have "find (\<lambda>ic. ?Q (snd ic)) (enumerate 0 commands) = Some ic \<longleftrightarrow>
        (fst ic < length commands \<and> snd ic = commands ! fst ic \<and> ?Q (commands ! fst ic)
          \<and> (\<forall>j<fst ic. \<not> ?Q (commands ! j)))"
      by (rule find_enumerate_Some)
    ultimately have f: "fst ic < length commands" "snd ic = commands ! fst ic"
      "?Q (commands ! fst ic)" "\<forall>j<fst ic. \<not> ?Q (commands ! j)"
      by blast+
    show ?thesis
    proof (cases "?E (commands ! fst ic)")
      case True
      then have "?cond" using f by blast
      moreover have "filter is_missing_write_message errs =
          [out_message_subprocess rt fns
             (context_add_fn rt (command_context ctx (fst ic)) (Some (commands ! fst ic)))]"
        using m Some True f(2) by simp
      ultimately show ?thesis using f True by auto
    next
      case False
      then have w: "?W (commands ! fst ic)" using f(3) by blast
      have "\<not> ?cond"
      proof
        assume "?cond"
        then obtain i where i: "i < length commands" "?E (commands ! i)"
          "\<forall>j<i. \<not> ?W (commands ! j)" by blast
        then show False using f(4) w False by (metis linorder_neqE_nat)
      qed
      moreover have "filter is_missing_write_message errs = []"
        using m Some False f(2) by simp
      ultimately show ?thesis by simp
    qed
  qed
qed

lemma update_messages_value:
  assumes e: "check_command_list h rt fns ctx commands = Inr errs"
  shows "filter is_update_message errs =
      concat (map (\<lambda>i.
          if (is_expansions_update_or_fn h fns (commands ! i) = Inr True
                \<or> is_timeout_update_or_fn h fns (commands ! i) = Inr True)
              \<and> \<not> (Suc i < length commands
                    \<and> is_expansions_write_or_fn h fns (commands ! Suc i) = Inr True)
          then [out_message_expansions_update rt fns
                  (context_add_fn rt (command_context ctx i) (Some (commands ! i)))
                  (if is_expansions_update_or_fn h fns (commands ! i) = Inr True
                   then ''expansions.update'' else ''timeout.update'')]
          else [])
        [0..<length commands])"
proof -
  have eq: "map (\<lambda>i. update_msgs h rt fns ctx commands i (commands ! i)) [0..<length commands] =
    map (\<lambda>i.
          if (is_expansions_update_or_fn h fns (commands ! i) = Inr True
                \<or> is_timeout_update_or_fn h fns (commands ! i) = Inr True)
              \<and> \<not> (Suc i < length commands
                    \<and> is_expansions_write_or_fn h fns (commands ! Suc i) = Inr True)
          then [out_message_expansions_update rt fns
                  (context_add_fn rt (command_context ctx i) (Some (commands ! i)))
                  (if is_expansions_update_or_fn h fns (commands ! i) = Inr True
                   then ''expansions.update'' else ''timeout.update'')]
          else [])
        [0..<length commands]"
    by (rule map_cong [OF refl]) (simp add: update_msgs_Inr_value [OF e])
  show ?thesis using update_messages [OF e, unfolded eq] .
qed

subsection \<open>Classification of the functions\<close>

lemma classify_fn_write:
  "expansions_write_fns (classify_fn h fns (f, v)) =
     expansions_write_fns fns \<union> {g. g = f \<and> (\<exists>b. v = YDict b \<and> match_expansions_write h b)}"
  by (cases v) (auto simp: classify_fn_def)

lemma classify_fn_exec:
  "subprocess_exec_fns (classify_fn h fns (f, v)) =
     subprocess_exec_fns fns \<union>
       {g. g = f \<and> (\<exists>b. v = YDict b \<and> \<not> match_expansions_write h b \<and> match_subprocess_exec h b)}"
  by (cases v) (auto simp: classify_fn_def)

lemma classify_fn_update:
  "expansions_update_fns (classify_fn h fns (f, v)) =
     expansions_update_fns fns \<union>
       {g. g = f \<and> (\<exists>b. v = YDict b \<and> \<not> match_expansions_write h b
                      \<and> \<not> match_subprocess_exec h b \<and> match_expansions_update h b)}"
  by (cases v) (auto simp: classify_fn_def)

lemma classify_fn_timeout:
  "timeout_update_fns (classify_fn h fns (f, v)) =
     timeout_update_fns fns \<union>
       {g. g = f \<and> (\<exists>b. v = YDict b \<and> \<not> match_expansions_write h b
                      \<and> \<not> match_subprocess_exec h b \<and> \<not> match_expansions_update h b
                      \<and> match_timeout_update h b)}"
  by (cases v) (auto simp: classify_fn_def)

lemma classify_fold_write:
  "expansions_write_fns (fold (\<lambda>fb fns. classify_fn h fns fb) fs fns0) =
     expansions_write_fns fns0 \<union>
       {f. \<exists>b. (f, YDict b) \<in> set fs \<and> match_expansions_write h b}"
proof (induction fs arbitrary: fns0)
  case Nil
  then show ?case by simp
next
  case (Cons fb fs)
  obtain f v where fb: "fb = (f, v)" by (cases fb)
  show ?case by (auto simp: Cons.IH fb classify_fn_write)
qed

lemma classify_fold_exec:
  "subprocess_exec_fns (fold (\<lambda>fb fns. classify_fn h fns fb) fs fns0) =
     subprocess_exec_fns fns0 \<union>
       {f. \<exists>b. (f, YDict b) \<in> set fs \<and> \<not> match_expansions_write h b \<and> match_subprocess_exec h b}"
proof (induction fs arbitrary: fns0)
  case Nil
  then show ?case by simp
next
  case (Cons fb fs)
  obtain f v where fb: "fb = (f, v)" by (cases fb)
  show ?case by (auto simp: Cons.IH fb classify_fn_exec)
qed

lemma classify_fold_update:
  "expansions_update_fns (fold (\<lambda>fb fns. classify_fn h fns fb) fs fns0) =
     expansions_update_fns fns0 \<union>
       {f. \<exists>b. (f, YDict b) \<in> set fs \<and> \<not> match_expansions_write h b
              \<and> \<not> match_subprocess_exec h b \<and> match_expansions_update h b}"
proof (induction fs arbitrary: fns0)
  case Nil
  then show ?case by simp
next
  case (Cons fb fs)
  obtain f v where fb: "fb = (f, v)" by (cases fb)
  show ?case by (auto simp: Cons.IH fb classify_fn_update)
qed

lemma classify_fold_timeout:
  "timeout_update_fns (fold (\<lambda>fb fns. classify_fn h fns fb) fs fns0) =
     timeout_update_fns fns0 \<union>
       {f. \<exists>b. (f, YDict b) \<in> set fs \<and> \<not> match_expansions_write h b
              \<and> \<not> match_subprocess_exec h b \<and> \<not> match_expansions_update h b
              \<and> match_timeout_update h b}"
proof (induction fs arbitrary: fns0)
  case Nil
  then show ?case by simp
next
  case (Cons fb fs)
  obtain f v where fb: "fb = (f, v)" by (cases fb)
  show ?case by (auto simp: Cons.IH fb classify_fn_timeout)
qed

lemma distinct_keys_same_body:
  assumes "distinct (map fst fs)" and "(f, v) \<in> set fs" and "(f, v') \<in> set fs"
  shows "v = v'"
  using assms by (meson eq_key_imp_eq_value)

lemma classify_functions_absent:
  "map_of doc ''functions'' = None \<Longrightarrow> classify_functions h doc = Inr empty_fn_sets"
  by (simp add: classify_functions_def)

lemma classify_functions_dict:
  assumes "map_of doc ''functions'' = Some (YDict fs)"
  shows "\<exists>fns. classify_functions h doc = Inr fns
    \<and> expansions_write_fns fns = {f. \<exists>b. (f, YDict b) \<in> set fs \<and> match_expansions_write h b}
    \<and> subprocess_exec_fns fns =
        {f. \<exists>b. (f, YDict b) \<in> set fs \<and> \<not> match_expansions_write h b \<and> match_subprocess_exec h b}
    \<and> expansions_update_fns fns =
        {f. \<exists>b. (f, YDict b) \<in> set fs \<and> \<not> match_expansions_write h b
               \<and> \<not> match_subprocess_exec h b \<and> match_expansions_update h b}
    \<and> timeout_update_fns fns =
        {f. \<exists>b. (f, YDict b) \<in> set fs \<and> \<not> match_expansions_write h b
               \<and> \<not> match_subprocess_exec h b \<and> \<not> match_expansions_update h b
               \<and> match_timeout_update h b}"
  using assms
  by (simp add: classify_functions_def classify_fold_write classify_fold_exec
      classify_fold_update classify_fold_timeout empty_fn_sets_def)

lemma classify_functions_Inr:
  assumes "classify_functions h doc = Inr fns"
  shows "expansions_write_fns fns =
        {f. \<exists>b. (f, YDict b) \<in> set (function_defs doc) \<and> match_expansions_write h b}"
    and "subprocess_exec_fns fns =
        {f. \<exists>b. (f, YDict b) \<in> set (function_defs doc) \<and> \<not> match_expansions_write h b
               \<and> match_subprocess_exec h b}"
    and "expansions_update_fns fns =
        {f. \<exists>b. (f, YDict b) \<in> set (function_defs doc) \<and> \<not> match_expansions_write h b
               \<and> \<not> match_subprocess_exec h b \<and> match_expansions_update h b}"
    and "timeout_update_fns fns =
        {f. \<exists>b. (f, YDict b) \<in> set (function_defs doc) \<and> \<not> match_expansions_write h b
               \<and> \<not> match_subprocess_exec h b \<and> \<not> match_expansions_update h b
               \<and> match_timeout_update h b}"
proof -
  consider (absent) "map_of doc ''functions'' = None"
    | (dict) fs where "map_of doc ''functions'' = Some (YDict fs)"
    using assms by (auto simp: classify_functions_def split: option.splits yaml.splits)
  then have "expansions_write_fns fns =
        {f. \<exists>b. (f, YDict b) \<in> set (function_defs doc) \<and> match_expansions_write h b}
    \<and> subprocess_exec_fns fns =
        {f. \<exists>b. (f, YDict b) \<in> set (function_defs doc) \<and> \<not> match_expansions_write h b
               \<and> match_subprocess_exec h b}
    \<and> expansions_update_fns fns =
        {f. \<exists>b. (f, YDict b) \<in> set (function_defs doc) \<and> \<not> match_expansions_write h b
               \<and> \<not> match_subprocess_exec h b \<and> match_expansions_update h b}
    \<and> timeout_update_fns fns =
        {f. \<exists>b. (f, YDict b) \<in> set (function_defs doc) \<and> \<not> match_expansions_write h b
               \<and> \<not> match_subprocess_exec h b \<and> \<not> match_expansions_update h b
               \<and> match_timeout_update h b}"
  proof cases
    case absent
    then have "fns = empty_fn_sets" using assms by (simp add: classify_functions_def)
    then show ?thesis using absent by (simp add: function_defs_def empty_fn_sets_def)
  next
    case dict
    from classify_functions_dict [OF dict, of h] assms
    show ?thesis by (auto simp: function_defs_def dict)
  qed
  then show "expansions_write_fns fns =
        {f. \<exists>b. (f, YDict b) \<in> set (function_defs doc) \<and> match_expansions_write h b}"
    and "subprocess_exec_fns fns =
        {f. \<exists>b. (f, YDict b) \<in> set (function_defs doc) \<and> \<not> match_expansions_write h b
               \<and> match_subprocess_exec h b}"
    and "expansions_update_fns fns =
        {f. \<exists>b. (f, YDict b) \<in> set (function_defs doc) \<and> \<not> match_expansions_write h b
               \<and> \<not> match_subprocess_exec h b \<and> match_expansions_update h b}"
    and "timeout_update_fns fns =
        {f. \<exists>b. (f, YDict b) \<in> set (function_defs doc) \<and> \<not> match_expansions_write h b
               \<and> \<not> match_subprocess_exec h b \<and> \<not> match_expansions_update h b
               \<and> match_timeout_update h b}"
    by blast+
qed

lemma classify_functions_returns:
  "(\<exists>fns. classify_functions h doc = Inr fns) \<longleftrightarrow>
     (case map_of doc ''functions'' of None \<Rightarrow> True | Some (YDict _) \<Rightarrow> True | Some _ \<Rightarrow> False)"
  by (auto simp: classify_functions_def split: option.splits yaml.splits)

subsection \<open>The loops of the rule\<close>

lemma ref_scan_all:
  assumes "\<And>i c. P (msg i c)" and "\<And>i c m. m \<in> set (upd i c) \<Longrightarrow> P m"
  shows "list_all P (ref_scan E W msg upd q ics)"
proof (induction ics arbitrary: q)
  case Nil
  then show ?case by simp
next
  case (Cons ic ics)
  obtain i c where ic: "ic = (i, c)" by (cases ic)
  have "list_all P (upd i c)" using assms(2) by (simp add: list_all_iff)
  then show ?case using assms(1) Cons.IH by (simp add: ic)
qed

lemma check_command_list_not_dangerous:
  assumes "check_command_list h rt fns ctx commands = Inr errs"
  shows "list_all (\<lambda>m. \<not> is_dangerous_message m) errs"
  unfolding check_command_list_ref [OF assms]
  by (rule ref_scan_all) (simp_all add: subprocess_kind update_msgs_kind)

lemma list_errors_not_dangerous:
  "list_all (\<lambda>m. \<not> is_dangerous_message m) (list_errors h rt fns cc)"
proof (cases cc)
  case (Pair ctx cs)
  show ?thesis
  proof (cases cs)
    case (CommandsDict d)
    then show ?thesis by (simp add: list_errors_def Pair)
  next
    case (CommandsList l)
    show ?thesis
    proof (cases "check_command_list h rt fns ctx l")
      case (Inl e)
      then show ?thesis by (simp add: list_errors_def Pair CommandsList)
    next
      case (Inr errs)
      then show ?thesis
        using check_command_list_not_dangerous [OF Inr]
        by (simp add: list_errors_def Pair CommandsList)
    qed
  qed
qed

lemma site_errors_dangerous:
  "list_all is_dangerous_message (site_errors rt fns site)"
  by (cases site) (simp add: site_errors_def dangerous_kind)

lemma check_lists_step_Inr:
  assumes "check_lists_step h rt fns acc cc = Inr r"
  shows "r = acc @ list_errors h rt fns cc"
proof (cases cc)
  case (Pair ctx cs)
  show ?thesis
    using assms
    by (cases cs) (auto simp: check_lists_step_def list_errors_def Pair bind_eq_Inr)
qed

lemma check_lists_loop_Inr:
  assumes "for_each (check_lists_step h rt fns) acc cls = Inr r"
  shows "r = acc @ concat (map (list_errors h rt fns) cls)"
  using assms
proof (induction cls arbitrary: acc)
  case Nil
  then show ?case by simp
next
  case (Cons cc cls)
  from Cons.prems obtain acc1 where
    s: "check_lists_step h rt fns acc cc = Inr acc1" and
    r: "for_each (check_lists_step h rt fns) acc1 cls = Inr r"
    by (auto split: sum.splits)
  show ?case using Cons.IH [OF r] check_lists_step_Inr [OF s] by simp
qed

lemma check_lists_step_total:
  assumes "case snd cc of CommandsDict _ \<Rightarrow> True | CommandsList cs \<Rightarrow> list_all func_hashable cs"
  shows "\<exists>r. check_lists_step h rt fns acc cc = Inr r"
proof (cases cc)
  case (Pair ctx cs)
  show ?thesis
  proof (cases cs)
    case (CommandsDict d)
    then show ?thesis by (simp add: check_lists_step_def Pair)
  next
    case (CommandsList l)
    then have "list_all func_hashable l" using assms by (simp add: Pair)
    then obtain errs where "check_command_list h rt fns ctx l = Inr errs"
      using check_command_list_total by blast
    then show ?thesis by (simp add: check_lists_step_def Pair CommandsList)
  qed
qed

lemma check_lists_loop_total:
  assumes "list_all (\<lambda>cc. case snd cc of CommandsDict _ \<Rightarrow> True
                        | CommandsList cs \<Rightarrow> list_all func_hashable cs) cls"
  shows "\<exists>r. for_each (check_lists_step h rt fns) acc cls = Inr r"
  using assms
proof (induction cls arbitrary: acc)
  case Nil
  then show ?case by simp
next
  case (Cons cc cls)
  have "case snd cc of CommandsDict _ \<Rightarrow> True | CommandsList cs \<Rightarrow> list_all func_hashable cs"
    using Cons.prems by simp
  then obtain acc1 where s: "check_lists_step h rt fns acc cc = Inr acc1"
    using check_lists_step_total [of cc h rt fns acc] by blast
  show ?case using Cons.IH [of acc1] Cons.prems by (simp add: s)
qed

lemma check_fn_call_step_Inr:
  assumes "check_fn_call_step rt fns acc site = Inr r"
  shows "r = acc @ site_errors rt fns site"
  using assms
  by (cases site) (auto simp: check_fn_call_step_def site_errors_def bind_eq_Inr)

lemma check_fn_calls_loop_Inr:
  assumes "for_each (check_fn_call_step rt fns) acc sites = Inr r"
  shows "r = acc @ concat (map (site_errors rt fns) sites)"
  using assms
proof (induction sites arbitrary: acc)
  case Nil
  then show ?case by simp
next
  case (Cons site sites)
  from Cons.prems obtain acc1 where
    s: "check_fn_call_step rt fns acc site = Inr acc1" and
    r: "for_each (check_fn_call_step rt fns) acc1 sites = Inr r"
    by (auto split: sum.splits)
  show ?case using Cons.IH [OF r] check_fn_call_step_Inr [OF s] by simp
qed

lemma dangerous_call_total:
  assumes "case map_of c ''func'' of None \<Rightarrow> False | Some v \<Rightarrow> hashable v"
  shows "\<exists>b. dangerous_call fns c = Inr b"
proof (cases "map_of c ''func''")
  case None
  then show ?thesis using assms by simp
next
  case (Some v)
  then have "hashable v" using assms by simp
  then obtain m where "py_in_set v (subprocess_exec_fns fns) = Inr m"
    using py_in_set_total by blast
  then show ?thesis by (simp add: dangerous_call_def Some)
qed

lemma check_fn_calls_loop_total:
  assumes "list_all (\<lambda>site. case map_of (fst (snd site)) ''func'' of None \<Rightarrow> False
                          | Some v \<Rightarrow> hashable v) sites"
  shows "\<exists>r. for_each (check_fn_call_step rt fns) acc sites = Inr r"
  using assms
proof (induction sites arbitrary: acc)
  case Nil
  then show ?case by simp
next
  case (Cons site sites)
  obtain ctx c l where site: "site = (ctx, c, l)" by (cases site)
  obtain b where "dangerous_call fns c = Inr b"
    using dangerous_call_total [of c fns] Cons.prems by (auto simp: site)
  then obtain acc1 where s: "check_fn_call_step rt fns acc site = Inr acc1"
    by (simp add: check_fn_call_step_def site)
  show ?case using Cons.IH [of acc1] Cons.prems by (simp add: s)
qed


lemma classify_functions_total:
  assumes "wf_document h doc"
  shows "\<exists>fns. classify_functions h doc = Inr fns"
  using assms
  by (auto simp: wf_document_def classify_functions_def split: option.splits yaml.splits)

lemma call_decomposition:
  assumes "wf_document h doc"
  shows "\<exists>fns. classify_functions h doc = Inr fns \<and>
    for_each (check_lists_step h rt fns) [] (iterate_command_lists h doc) =
      Inr (concat (map (list_errors h rt fns) (iterate_command_lists h doc))) \<and>
    call h rt config doc =
      Inr (concat (map (list_errors h rt fns) (iterate_command_lists h doc))
           @ concat (map (site_errors rt fns) (iterate_fn_calls_context h doc)))"
proof -
  obtain fns where c: "classify_functions h doc = Inr fns"
    using classify_functions_total [OF assms] by blast
  obtain r1 where r1: "for_each (check_lists_step h rt fns) [] (iterate_command_lists h doc) = Inr r1"
    using check_lists_loop_total [of "iterate_command_lists h doc" h rt fns "[]"] assms
    by (auto simp: wf_document_def)
  obtain r2 where r2: "for_each (check_fn_call_step rt fns) r1 (iterate_fn_calls_context h doc) = Inr r2"
    using check_fn_calls_loop_total [of "iterate_fn_calls_context h doc" rt fns r1] assms
    by (auto simp: wf_document_def)
  have e1: "r1 = concat (map (list_errors h rt fns) (iterate_command_lists h doc))"
    using check_lists_loop_Inr [OF r1] by simp
  have e2: "r2 = r1 @ concat (map (site_errors rt fns) (iterate_fn_calls_context h doc))"
    using check_fn_calls_loop_Inr [OF r2] .
  show ?thesis
    using c r1 r2 e1 e2 by (auto simp: call_def)
qed

lemma call_Inr_decomposition:
  assumes "call h rt config doc = Inr errs"
  shows "\<exists>fns. classify_functions h doc = Inr fns \<and>
    errs = concat (map (list_errors h rt fns) (iterate_command_lists h doc))
           @ concat (map (site_errors rt fns) (iterate_fn_calls_context h doc))"
proof -
  from assms obtain fns r1 where c: "classify_functions h doc = Inr fns"
    and r1: "for_each (check_lists_step h rt fns) [] (iterate_command_lists h doc) = Inr r1"
    and r2: "for_each (check_fn_call_step rt fns) r1 (iterate_fn_calls_context h doc) = Inr errs"
    by (auto simp: call_def bind_eq_Inr)
  have e1: "r1 = concat (map (list_errors h rt fns) (iterate_command_lists h doc))"
    using check_lists_loop_Inr [OF r1] by simp
  have e2: "errs = r1 @ concat (map (site_errors rt fns) (iterate_fn_calls_context h doc))"
    using check_fn_calls_loop_Inr [OF r2] .
  show ?thesis using c e1 e2 by blast
qed

lemma call_total:
  assumes "wf_document h doc"
  shows "\<exists>errs. call h rt config doc = Inr errs"
  using call_decomposition [OF assms] by blast


lemma call_Inr_kinds:
  assumes "call h rt config doc = Inr errs"
  shows "\<exists>fns. classify_functions h doc = Inr fns \<and>
    errs = concat (map (list_errors h rt fns) (iterate_command_lists h doc))
           @ concat (map (site_errors rt fns) (iterate_fn_calls_context h doc)) \<and>
    list_all (\<lambda>m. \<not> is_dangerous_message m)
      (concat (map (list_errors h rt fns) (iterate_command_lists h doc))) \<and>
    list_all is_dangerous_message
      (concat (map (site_errors rt fns) (iterate_fn_calls_context h doc)))"
proof -
  obtain fns where c: "classify_functions h doc = Inr fns" and
    r: "errs = concat (map (list_errors h rt fns) (iterate_command_lists h doc))
           @ concat (map (site_errors rt fns) (iterate_fn_calls_context h doc))"
    using call_Inr_decomposition [OF assms] by blast
  have l: "list_all (\<lambda>m. \<not> is_dangerous_message m)
      (concat (map (list_errors h rt fns) (iterate_command_lists h doc)))"
    using list_errors_not_dangerous by (auto simp: list_all_iff)
  have s: "list_all is_dangerous_message
      (concat (map (site_errors rt fns) (iterate_fn_calls_context h doc)))"
    using site_errors_dangerous by (auto simp: list_all_iff)
  from c r l s show ?thesis by blast
qed


lemma check_command_list_scan:
  assumes "scan_commands h rt fns ctx commands = Inr st"
  shows "check_command_list h rt fns ctx commands = Inr (out st @ fallback rt fns ctx st)"
  by (simp add: check_command_list_def assms)

subsection \<open>The result grows by appending\<close>

lemma for_each_append:
  "for_each body st (xs @ ys) =
     (case for_each body st xs of Inl e \<Rightarrow> Inl e | Inr st' \<Rightarrow> for_each body st' ys)"
  by (induction xs arbitrary: st) (auto split: sum.splits)

lemma scan_step_prefix:
  assumes "scan_step h rt fns ctx commands st ic = Inr st'"
  shows "prefix (out st) (out st')"
proof -
  obtain i c where ic: "ic = (i, c)" by (cases ic)
  obtain st1 st2 msgs where
    t: "track_first h fns st i c = Inr st1" and
    w: "warn_subprocess h rt fns ctx st1 i c = Inr st2" and
    e: "st' = st2\<lparr>out := out st2 @ msgs\<rparr>"
    using scan_step_Inr_parts [OF assms [unfolded ic]] by blast
  note t' = track_first_Inr [OF t] and w' = warn_subprocess_Inr [OF w]
  show ?thesis unfolding e w' t' by (simp split: if_splits)
qed

lemma scan_loop_prefix:
  assumes "for_each (scan_step h rt fns ctx commands) st ics = Inr st'"
  shows "prefix (out st) (out st')"
  using assms
proof (induction ics arbitrary: st)
  case Nil
  then show ?case by simp
next
  case (Cons ic ics)
  from Cons.prems obtain st1 where
    s1: "scan_step h rt fns ctx commands st ic = Inr st1" and
    r: "for_each (scan_step h rt fns ctx commands) st1 ics = Inr st'"
    by (auto split: sum.splits)
  from scan_step_prefix [OF s1] Cons.IH [OF r] show ?case
    using prefix_order.order_trans by blast
qed

lemma scan_prefixes:
  assumes "scan_commands h rt fns ctx commands = Inr st" and "k \<le> length commands"
  shows "\<exists>st_k. for_each (scan_step h rt fns ctx commands) init_scan_state
                  (take k (enumerate 0 commands)) = Inr st_k
               \<and> prefix (out st_k) (out st)"
proof -
  let ?f = "for_each (scan_step h rt fns ctx commands)"
  let ?xs = "enumerate 0 commands"
  have "?f init_scan_state (take k ?xs @ drop k ?xs) = Inr st"
    using assms(1) by (simp add: scan_commands_def)
  then have c: "(case ?f init_scan_state (take k ?xs) of Inl e \<Rightarrow> Inl e
                 | Inr st' \<Rightarrow> ?f st' (drop k ?xs)) = Inr st"
    by (simp only: for_each_append)
  then obtain st_k where a: "?f init_scan_state (take k ?xs) = Inr st_k"
    and b: "?f st_k (drop k ?xs) = Inr st"
    by (cases "?f init_scan_state (take k ?xs)") simp_all
  from a scan_loop_prefix [OF b] show ?thesis by blast
qed

subsection \<open>The step predicates and the text of the messages, spelled out\<close>

lemma py_in_set_True:
  "py_in_set v S = Inr True \<longleftrightarrow> (\<exists>f. v = YStr f \<and> f \<in> S)"
  by (cases v) auto

lemma func_in_True:
  "func_in c S = Inr True \<longleftrightarrow> (\<exists>f. map_of c ''func'' = Some (YStr f) \<and> f \<in> S)"
  by (auto simp: func_in_def py_in_set_True split: option.splits)

lemma is_exec_True:
  "is_subprocess_exec_or_fn h fns c = Inr True \<longleftrightarrow>
     (match_subprocess_exec h c
      \<or> (\<exists>f. map_of c ''func'' = Some (YStr f) \<and> f \<in> subprocess_exec_fns fns))"
  by (simp add: is_subprocess_exec_or_fn_def func_in_True)

lemma is_write_True:
  "is_expansions_write_or_fn h fns c = Inr True \<longleftrightarrow>
     (match_expansions_write h c
      \<or> (\<exists>f. map_of c ''func'' = Some (YStr f) \<and> f \<in> expansions_write_fns fns))"
  by (simp add: is_expansions_write_or_fn_def func_in_True)

lemma is_update_True:
  "is_expansions_update_or_fn h fns c = Inr True \<longleftrightarrow>
     (match_expansions_update h c
      \<or> (\<exists>f. map_of c ''func'' = Some (YStr f) \<and> f \<in> expansions_update_fns fns))"
  by (simp add: is_expansions_update_or_fn_def func_in_True)

lemma is_timeout_True:
  "is_timeout_update_or_fn h fns c = Inr True \<longleftrightarrow>
     (match_timeout_update h c
      \<or> (\<exists>f. map_of c ''func'' = Some (YStr f) \<and> f \<in> timeout_update_fns fns))"
  by (simp add: is_timeout_update_or_fn_def func_in_True)

lemma context_text:
  "context_add_fn rt (command_context ctx i) (Some c) =
     ctx @ '', command '' @ str_nat i
       @ (case map_of c ''func'' of None \<Rightarrow> []
          | Some v \<Rightarrow> '', (function call: '' @ py_str rt v @ '')'')"
  by (cases c) (simp_all add: context_add_fn_def command_context_def split: option.splits)

lemma subprocess_message_text:
  "out_message_subprocess rt fns (context_add_fn rt (command_context ctx i) (Some c)) =
     ctx @ '', command '' @ str_nat i
       @ (case map_of c ''func'' of None \<Rightarrow> []
          | Some v \<Rightarrow> '', (function call: '' @ py_str rt v @ '')'')
       @ '' calls an evergreen shell script without a preceding expansions.write call. Always call expansions.write with params: file: expansions.yml; redacted: true, (or use one of these functions: ''
       @ set_list_str rt (expansions_write_fns fns)
       @ '') before calling an evergreen shell script via subprocess.exec.''"
  by (simp add: out_message_subprocess_def context_text)

lemma update_message_text:
  "out_message_expansions_update rt fns (context_add_fn rt (command_context ctx i) (Some c)) fname =
     ctx @ '', command '' @ str_nat i
       @ (case map_of c ''func'' of None \<Rightarrow> []
          | Some v \<Rightarrow> '', (function call: '' @ py_str rt v @ '')'')
       @ '' is an '' @ fname
       @ '' command that is not immediately followed by an expansions.write call. Always call expansions.write with params: file: expansions.yml; redacted: true, (or use one of these functions: ''
       @ set_list_str rt (expansions_write_fns fns)
       @ '') after calling '' @ fname @ ''.''"
  by (simp add: out_message_expansions_update_def context_text)

lemma digit_char_inj:
  assumes "a < 10" and "b < 10" and "digit_char a = digit_char b"
  shows "a = b"
proof -
  have "distinct ''0123456789''" by simp
  from nth_eq_iff_index_eq [OF this, of a b] assms show ?thesis
    by (simp add: digit_char_def)
qed

lemma str_nat_not_Nil: "str_nat n \<noteq> []"
  by (subst str_nat.simps) simp

lemma str_nat_inj: "str_nat n = str_nat m \<Longrightarrow> n = m"
proof (induction n arbitrary: m rule: str_nat.induct)
  case (1 n)
  show ?case
  proof (cases "n < 10")
    case n: True
    show ?thesis
    proof (cases "m < 10")
      case True
      with n "1.prems" show ?thesis
        by (simp add: str_nat.simps [of n] str_nat.simps [of m] digit_char_inj)
    next
      case False
      with n "1.prems" str_nat_not_Nil [of "m div 10"] show ?thesis
        by (simp add: str_nat.simps [of n] str_nat.simps [of m] Cons_eq_append_conv)
    qed
  next
    case n: False
    show ?thesis
    proof (cases "m < 10")
      case True
      with n "1.prems" str_nat_not_Nil [of "n div 10"] show ?thesis
        by (simp add: str_nat.simps [of n] str_nat.simps [of m] append_eq_Cons_conv)
    next
      case False
      with n "1.prems" have e: "str_nat (n div 10) = str_nat (m div 10)"
        and d: "digit_char (n mod 10) = digit_char (m mod 10)"
        by (simp_all add: str_nat.simps [of n] str_nat.simps [of m])
      from "1.IH" [OF n e] have q: "n div 10 = m div 10" .
      have r: "n mod 10 = m mod 10" using d by (intro digit_char_inj) simp_all
      from q r show ?thesis by (metis div_mult_mod_eq)
    qed
  qed
qed

subsection \<open>The instance\<close>

lemma demo_steps [simp]:
  "is_subprocess_exec_or_fn demo_helpers fns cmd_exec = Inr True"
  "is_subprocess_exec_or_fn demo_helpers fns cmd_write = Inr False"
  "is_subprocess_exec_or_fn demo_helpers fns cmd_update = Inr False"
  "is_subprocess_exec_or_fn demo_helpers fns cmd_timeout = Inr False"
  "is_subprocess_exec_or_fn demo_helpers fns cmd_shell = Inr False"
  "is_expansions_write_or_fn demo_helpers fns cmd_exec = Inr False"
  "is_expansions_write_or_fn demo_helpers fns cmd_write = Inr True"
  "is_expansions_write_or_fn demo_helpers fns cmd_update = Inr False"
  "is_expansions_write_or_fn demo_helpers fns cmd_timeout = Inr False"
  "is_expansions_write_or_fn demo_helpers fns cmd_shell = Inr False"
  "is_expansions_update_or_fn demo_helpers fns cmd_exec = Inr False"
  "is_expansions_update_or_fn demo_helpers fns cmd_write = Inr False"
  "is_expansions_update_or_fn demo_helpers fns cmd_update = Inr True"
  "is_expansions_update_or_fn demo_helpers fns cmd_timeout = Inr False"
  "is_expansions_update_or_fn demo_helpers fns cmd_shell = Inr False"
  "is_timeout_update_or_fn demo_helpers fns cmd_exec = Inr False"
  "is_timeout_update_or_fn demo_helpers fns cmd_write = Inr False"
  "is_timeout_update_or_fn demo_helpers fns cmd_update = Inr False"
  "is_timeout_update_or_fn demo_helpers fns cmd_timeout = Inr True"
  "is_timeout_update_or_fn demo_helpers fns cmd_shell = Inr False"
  by (simp_all add: is_subprocess_exec_or_fn_def is_expansions_write_or_fn_def
      is_expansions_update_or_fn_def is_timeout_update_or_fn_def func_in_def demo_helpers_def
      cmd_exec_def cmd_write_def cmd_update_def cmd_timeout_def cmd_shell_def)

lemma demo_hashable [simp]:
  "func_hashable cmd_exec" "func_hashable cmd_write" "func_hashable cmd_update"
  "func_hashable cmd_timeout" "func_hashable cmd_shell"
  by (simp_all add: func_hashable_def
      cmd_exec_def cmd_write_def cmd_update_def cmd_timeout_def cmd_shell_def)

lemma demo_classify: "classify_functions demo_helpers demo_doc = Inr demo_fns"
  by (simp add: classify_functions_def demo_doc_def demo_functions_def classify_fn_def
      demo_helpers_def cmd_write_def cmd_exec_def cmd_shell_def demo_fns_def empty_fn_sets_def)

lemma demo_lists: "iterate_command_lists demo_helpers demo_doc =
    [(''Pre'', CommandsList [call_exec_with_vars, cmd_update])]"
  by (simp add: demo_helpers_def demo_doc_def)

lemma demo_sites: "iterate_fn_calls_context demo_helpers demo_doc =
    [(''Pre'', call_exec_with_vars, [call_exec_with_vars, cmd_update])]"
  by (simp add: demo_helpers_def demo_doc_def call_exec_with_vars_def cmd_update_def)

lemma demo_wf: "wf_document demo_helpers demo_doc"
  unfolding wf_document_def demo_lists demo_sites
  by (simp add: demo_doc_def func_hashable_def call_exec_with_vars_def cmd_update_def)

lemma demo_check:
  "check_command_list demo_helpers demo_runtime demo_fns ''Pre'' [call_exec_with_vars, cmd_update] =
     Inr [out_message_subprocess demo_runtime demo_fns
            (context_add_fn demo_runtime (command_context ''Pre'' 0) (Some call_exec_with_vars)),
          out_message_expansions_update demo_runtime demo_fns
            (context_add_fn demo_runtime (command_context ''Pre'' 1) (Some cmd_update))
            ''expansions.update'']"
proof -
  have s: "is_subprocess_exec_or_fn demo_helpers demo_fns call_exec_with_vars = Inr True"
    "is_expansions_write_or_fn demo_helpers demo_fns call_exec_with_vars = Inr False"
    "is_expansions_update_or_fn demo_helpers demo_fns call_exec_with_vars = Inr False"
    "is_timeout_update_or_fn demo_helpers demo_fns call_exec_with_vars = Inr False"
    by (simp_all add: is_subprocess_exec_or_fn_def is_expansions_write_or_fn_def
        is_expansions_update_or_fn_def is_timeout_update_or_fn_def func_in_def demo_helpers_def
        call_exec_with_vars_def demo_fns_def)
  show ?thesis
    by (simp add: check_command_list_def scan_commands_def scan_step_def track_first_def
        warn_subprocess_def update_check_def init_scan_state_def fallback_def s)
qed

lemma demo_dangerous: "dangerous_call demo_fns call_exec_with_vars = Inr True"
  by (simp add: dangerous_call_def call_exec_with_vars_def demo_fns_def)

lemma demo_list_errors:
  "list_errors demo_helpers demo_runtime demo_fns (''Pre'', CommandsList [call_exec_with_vars, cmd_update]) =
     [out_message_subprocess demo_runtime demo_fns
        (context_add_fn demo_runtime (command_context ''Pre'' 0) (Some call_exec_with_vars)),
      out_message_expansions_update demo_runtime demo_fns
        (context_add_fn demo_runtime (command_context ''Pre'' 1) (Some cmd_update))
        ''expansions.update'']"
  by (simp add: list_errors_def demo_check)

lemma demo_function_defs: "function_defs demo_doc = demo_functions"
  by (simp add: function_defs_def demo_doc_def)

lemma demo_matches:
  "match_subprocess_exec demo_helpers c = (map_of c ''command'' = Some (YStr ''subprocess.exec''))"
  "match_expansions_write demo_helpers c = (map_of c ''command'' = Some (YStr ''expansions.write''))"
  "match_expansions_update demo_helpers c = (map_of c ''command'' = Some (YStr ''expansions.update''))"
  "match_timeout_update demo_helpers c = (map_of c ''command'' = Some (YStr ''timeout.update''))"
  by (simp_all add: demo_helpers_def)

lemma demo_commands:
  "map_of cmd_exec ''command'' = Some (YStr ''subprocess.exec'')" "map_of cmd_exec ''func'' = None"
  "map_of cmd_write ''command'' = Some (YStr ''expansions.write'')" "map_of cmd_write ''func'' = None"
  "map_of cmd_update ''command'' = Some (YStr ''expansions.update'')" "map_of cmd_update ''func'' = None"
  "map_of cmd_timeout ''command'' = Some (YStr ''timeout.update'')" "map_of cmd_timeout ''func'' = None"
  "map_of cmd_shell ''command'' = Some (YStr ''shell.exec'')" "map_of cmd_shell ''func'' = None"
  "map_of call_exec_with_vars ''command'' = None"
  "map_of call_exec_with_vars ''func'' = Some (YStr ''f_exec'')"
  "map_of call_f_write ''command'' = None" "map_of call_f_write ''func'' = Some (YStr ''f_write'')"
  "map_of call_f_update ''command'' = None" "map_of call_f_update ''func'' = Some (YStr ''f_update'')"
  "map_of call_f_timeout ''command'' = None" "map_of call_f_timeout ''func'' = Some (YStr ''f_timeout'')"
  by (simp_all add: cmd_exec_def cmd_write_def cmd_update_def cmd_timeout_def cmd_shell_def
      call_exec_with_vars_def call_f_write_def call_f_update_def call_f_timeout_def)

lemma demo_fns_all_sets:
  "expansions_write_fns demo_fns_all = {''f_write''}"
  "subprocess_exec_fns demo_fns_all = {''f_exec''}"
  "expansions_update_fns demo_fns_all = {''f_update''}"
  "timeout_update_fns demo_fns_all = {''f_timeout''}"
  by (simp_all add: demo_fns_all_def)

lemma demo_calls_hashable:
  "func_hashable call_exec_with_vars" "func_hashable call_f_write"
  "func_hashable call_f_update" "func_hashable call_f_timeout"
  by (simp_all add: func_hashable_def demo_commands)

lemma str_nat_digits:
  "str_nat 0 = ''0''" "str_nat (Suc 0) = ''1''" "str_nat 6 = ''6''"
  by (simp_all add: str_nat.simps digit_char_def)

section \<open>Properties of the rule\<close>

text \<open>
  C1: the checker returns on every command list whose \<^verbatim>\<open>func\<close> values can be
  hashed. A step is a script execution when the helper matches it (a direct
  \<^verbatim>\<open>subprocess.exec\<close>) or its \<^verbatim>\<open>func\<close> is a name in \<open>subprocess_exec_fns\<close>, and
  an expansions write when the helper matches it or its \<^verbatim>\<open>func\<close> is a name in
  \<open>expansions_write_fns\<close>. Whenever the checker returns, the messages about a missing
  expansions.write in its result are: exactly one when some script-execution step has
  no expansions-write step at an earlier index, and none otherwise. That one message is
  for the first script-execution step: its text is the label, the decimal index of that
  step, the called function when the step is a call, and the fixed wording of line 114.
  Distinct indices have distinct decimal renderings.
\<close>

theorem missing_write_reported_once:
  "(list_all func_hashable commands \<longrightarrow>
      (\<exists>errs. check_command_list h rt fns ctx commands = Inr errs))
   \<and> (\<forall>errs. check_command_list h rt fns ctx commands = Inr errs \<longrightarrow>
        (if \<exists>i<length commands.
              (match_subprocess_exec h (commands ! i)
               \<or> (\<exists>f. map_of (commands ! i) ''func'' = Some (YStr f)
                        \<and> f \<in> subprocess_exec_fns fns))
              \<and> (\<forall>j<i. \<not> (match_expansions_write h (commands ! j)
                            \<or> (\<exists>f. map_of (commands ! j) ''func'' = Some (YStr f)
                                     \<and> f \<in> expansions_write_fns fns)))
         then \<exists>i<length commands.
                (match_subprocess_exec h (commands ! i)
                 \<or> (\<exists>f. map_of (commands ! i) ''func'' = Some (YStr f)
                          \<and> f \<in> subprocess_exec_fns fns))
                \<and> (\<forall>j<i. \<not> (match_subprocess_exec h (commands ! j)
                              \<or> (\<exists>f. map_of (commands ! j) ''func'' = Some (YStr f)
                                       \<and> f \<in> subprocess_exec_fns fns)))
                \<and> filter is_missing_write_message errs =
                    [ctx @ '', command '' @ str_nat i
                       @ (case map_of (commands ! i) ''func'' of None \<Rightarrow> []
                          | Some v \<Rightarrow> '', (function call: '' @ py_str rt v @ '')'')
                       @ '' calls an evergreen shell script without a preceding expansions.write call. Always call expansions.write with params: file: expansions.yml; redacted: true, (or use one of these functions: ''
                       @ set_list_str rt (expansions_write_fns fns)
                       @ '') before calling an evergreen shell script via subprocess.exec.'']
         else filter is_missing_write_message errs = []))
   \<and> (\<forall>i j. str_nat i = str_nat j \<longrightarrow> i = j)"
proof (intro conjI allI impI)
  show "\<exists>errs. check_command_list h rt fns ctx commands = Inr errs"
    if "list_all func_hashable commands"
    using check_command_list_total [OF that] .
  show "i = j" if "str_nat i = str_nat j" for i j
    using str_nat_inj [OF that] .
  show "if \<exists>i<length commands.
              (match_subprocess_exec h (commands ! i)
               \<or> (\<exists>f. map_of (commands ! i) ''func'' = Some (YStr f)
                        \<and> f \<in> subprocess_exec_fns fns))
              \<and> (\<forall>j<i. \<not> (match_expansions_write h (commands ! j)
                            \<or> (\<exists>f. map_of (commands ! j) ''func'' = Some (YStr f)
                                     \<and> f \<in> expansions_write_fns fns)))
         then \<exists>i<length commands.
                (match_subprocess_exec h (commands ! i)
                 \<or> (\<exists>f. map_of (commands ! i) ''func'' = Some (YStr f)
                          \<and> f \<in> subprocess_exec_fns fns))
                \<and> (\<forall>j<i. \<not> (match_subprocess_exec h (commands ! j)
                              \<or> (\<exists>f. map_of (commands ! j) ''func'' = Some (YStr f)
                                       \<and> f \<in> subprocess_exec_fns fns)))
                \<and> filter is_missing_write_message errs =
                    [ctx @ '', command '' @ str_nat i
                       @ (case map_of (commands ! i) ''func'' of None \<Rightarrow> []
                          | Some v \<Rightarrow> '', (function call: '' @ py_str rt v @ '')'')
                       @ '' calls an evergreen shell script without a preceding expansions.write call. Always call expansions.write with params: file: expansions.yml; redacted: true, (or use one of these functions: ''
                       @ set_list_str rt (expansions_write_fns fns)
                       @ '') before calling an evergreen shell script via subprocess.exec.'']
         else filter is_missing_write_message errs = []"
    if "check_command_list h rt fns ctx commands = Inr errs" for errs
    using missing_write_cases [OF that]
    unfolding is_exec_True is_write_True subprocess_message_text .
qed

theorem missing_write_reported_once_witness:
  "list_all func_hashable [call_f_write, cmd_exec] \<and>
   (\<exists>errs. check_command_list demo_helpers demo_runtime demo_fns_all ''Pre''
              [call_f_write, cmd_exec] = Inr errs \<and>
      filter is_missing_write_message errs = []) \<and>
   list_all func_hashable [cmd_shell, call_exec_with_vars, cmd_exec, call_f_write] \<and>
   (\<exists>errs. check_command_list demo_helpers demo_runtime demo_fns_all ''Pre''
              [cmd_shell, call_exec_with_vars, cmd_exec, call_f_write] = Inr errs \<and>
      filter is_missing_write_message errs =
        [''Pre, command 1, (function call: f_exec) calls an evergreen shell script without a preceding expansions.write call. Always call expansions.write with params: file: expansions.yml; redacted: true, (or use one of these functions: <names>) before calling an evergreen shell script via subprocess.exec.''])"
proof -
  let ?A = "[call_f_write, cmd_exec]"
  let ?B = "[cmd_shell, call_exec_with_vars, cmd_exec, call_f_write]"
  let ?E = "\<lambda>c. match_subprocess_exec demo_helpers c
              \<or> (\<exists>f. map_of c ''func'' = Some (YStr f) \<and> f \<in> subprocess_exec_fns demo_fns_all)"
  let ?W = "\<lambda>c. match_expansions_write demo_helpers c
              \<or> (\<exists>f. map_of c ''func'' = Some (YStr f) \<and> f \<in> expansions_write_fns demo_fns_all)"
  note tA = missing_write_reported_once [of ?A demo_helpers demo_runtime demo_fns_all "''Pre''"]
  note tB = missing_write_reported_once [of ?B demo_helpers demo_runtime demo_fns_all "''Pre''"]
  have hA: "list_all func_hashable ?A" and hB: "list_all func_hashable ?B"
    by (simp_all add: demo_calls_hashable)
  have steps: "\<not> ?E call_f_write" "?W call_f_write" "?E cmd_exec" "\<not> ?E cmd_shell"
    "?E call_exec_with_vars"  "\<not> ?W cmd_shell"
    by (simp_all add: demo_matches demo_commands demo_fns_all_sets)
  from tA [THEN conjunct1] hA obtain ea where
    ea: "check_command_list demo_helpers demo_runtime demo_fns_all ''Pre'' ?A = Inr ea"
    by blast
  have nA: "\<not> (\<exists>i<length ?A. ?E (?A ! i) \<and> (\<forall>j<i. \<not> ?W (?A ! j)))"
  proof
    assume "\<exists>i<length ?A. ?E (?A ! i) \<and> (\<forall>j<i. \<not> ?W (?A ! j))"
    then obtain i where i: "i < length ?A" "?E (?A ! i)" "\<forall>j<i. \<not> ?W (?A ! j)" by blast
    have "i \<noteq> 0" using i(2) steps(1) by (cases i) auto
    then have "0 < i" by simp
    with i(3) have "\<not> ?W (?A ! 0)" by blast
    with steps(2) show False by simp
  qed
  from tA [THEN conjunct2, THEN conjunct1, rule_format, OF ea]
  have fa: "filter is_missing_write_message ea = []"
    unfolding if_not_P [OF nA] .
  from tB [THEN conjunct1] hB obtain eb where
    eb: "check_command_list demo_helpers demo_runtime demo_fns_all ''Pre'' ?B = Inr eb"
    by blast
  have cB: "\<exists>i<length ?B. ?E (?B ! i) \<and> (\<forall>j<i. \<not> ?W (?B ! j))"
  proof (intro exI [of _ 1] conjI allI impI)
    show "1 < length ?B" by simp
    show "?E (?B ! 1)" using steps(5) by simp
    show "\<not> ?W (?B ! j)" if "j < 1" for j using that steps(6) by simp
  qed
  from tB [THEN conjunct2, THEN conjunct1, rule_format, OF eb]
  obtain i where i: "?E (?B ! i)" "\<forall>j<i. \<not> ?E (?B ! j)"
    and fb: "filter is_missing_write_message eb =
        [''Pre'' @ '', command '' @ str_nat i
           @ (case map_of (?B ! i) ''func'' of None \<Rightarrow> []
              | Some v \<Rightarrow> '', (function call: '' @ py_str demo_runtime v @ '')'')
           @ '' calls an evergreen shell script without a preceding expansions.write call. Always call expansions.write with params: file: expansions.yml; redacted: true, (or use one of these functions: ''
           @ set_list_str demo_runtime (expansions_write_fns demo_fns_all)
           @ '') before calling an evergreen shell script via subprocess.exec.'']"
    unfolding if_P [OF cB] by blast
  have "i = 1"
  proof -
    have "\<not> 1 < i" using i(2) steps(5) by auto
    moreover have "i \<noteq> 0" using i(1) steps(4) by (cases i) auto
    ultimately show ?thesis by simp
  qed
  then have fb': "filter is_missing_write_message eb =
        [''Pre, command 1, (function call: f_exec) calls an evergreen shell script without a preceding expansions.write call. Always call expansions.write with params: file: expansions.yml; redacted: true, (or use one of these functions: <names>) before calling an evergreen shell script via subprocess.exec.'']"
    using fb by (simp add: str_nat_digits demo_runtime_def demo_commands demo_fns_all_sets)
  from hA ea fa hB eb fb' show ?thesis by blast
qed

text \<open>
  C2: the checker returns on every command list whose \<^verbatim>\<open>func\<close> values can be
  hashed. A step is an expansions update (a timeout update, an expansions write) when
  the helper matches it or its \<^verbatim>\<open>func\<close> is a name in \<open>expansions_update_fns\<close>
  (\<open>timeout_update_fns\<close>, \<open>expansions_write_fns\<close>). Whenever the checker returns, the
  messages about an update in its result are, index by index and in order: one message
  for the step at \<open>i\<close> when that step is an expansions-update or a timeout-update step
  and the step at \<open>i + 1\<close> is out of range or is no expansions-write step, and none
  for \<open>i\<close> otherwise. The text of the message is the label, the decimal index
  \<open>i\<close>, the called function when the step is a call, and the wording of line 111
  with \<^verbatim>\<open>expansions.update\<close> for an expansions-update step and
  \<^verbatim>\<open>timeout.update\<close> otherwise; the two wordings differ, and distinct indices have
  distinct decimal renderings.
\<close>

theorem update_needs_write_next:
  "(list_all func_hashable commands \<longrightarrow>
      (\<exists>errs. check_command_list h rt fns ctx commands = Inr errs))
   \<and> (\<forall>errs. check_command_list h rt fns ctx commands = Inr errs \<longrightarrow>
        filter is_update_message errs =
          concat (map (\<lambda>i.
              if ((match_expansions_update h (commands ! i)
                   \<or> (\<exists>f. map_of (commands ! i) ''func'' = Some (YStr f)
                            \<and> f \<in> expansions_update_fns fns))
                  \<or> (match_timeout_update h (commands ! i)
                      \<or> (\<exists>f. map_of (commands ! i) ''func'' = Some (YStr f)
                               \<and> f \<in> timeout_update_fns fns)))
                 \<and> \<not> (Suc i < length commands
                       \<and> (match_expansions_write h (commands ! Suc i)
                          \<or> (\<exists>f. map_of (commands ! Suc i) ''func'' = Some (YStr f)
                                   \<and> f \<in> expansions_write_fns fns)))
              then [ctx @ '', command '' @ str_nat i
                      @ (case map_of (commands ! i) ''func'' of None \<Rightarrow> []
                         | Some v \<Rightarrow> '', (function call: '' @ py_str rt v @ '')'')
                      @ '' is an ''
                      @ (if match_expansions_update h (commands ! i)
                            \<or> (\<exists>f. map_of (commands ! i) ''func'' = Some (YStr f)
                                     \<and> f \<in> expansions_update_fns fns)
                         then ''expansions.update'' else ''timeout.update'')
                      @ '' command that is not immediately followed by an expansions.write call. Always call expansions.write with params: file: expansions.yml; redacted: true, (or use one of these functions: ''
                      @ set_list_str rt (expansions_write_fns fns)
                      @ '') after calling ''
                      @ (if match_expansions_update h (commands ! i)
                            \<or> (\<exists>f. map_of (commands ! i) ''func'' = Some (YStr f)
                                     \<and> f \<in> expansions_update_fns fns)
                         then ''expansions.update'' else ''timeout.update'')
                      @ ''.'']
              else [])
            [0..<length commands]))
   \<and> (\<forall>c. out_message_expansions_update rt fns c ''expansions.update''
            \<noteq> out_message_expansions_update rt fns c ''timeout.update'')
   \<and> (\<forall>i j. str_nat i = str_nat j \<longrightarrow> i = j)"
proof (intro conjI allI impI)
  show "\<exists>errs. check_command_list h rt fns ctx commands = Inr errs"
    if "list_all func_hashable commands"
    using check_command_list_total [OF that] .
  show "i = j" if "str_nat i = str_nat j" for i j
    using str_nat_inj [OF that] .
  show "out_message_expansions_update rt fns c ''expansions.update''
            \<noteq> out_message_expansions_update rt fns c ''timeout.update''" for c
    by (rule wording_differs)
  show "filter is_update_message errs =
          concat (map (\<lambda>i.
              if ((match_expansions_update h (commands ! i)
                   \<or> (\<exists>f. map_of (commands ! i) ''func'' = Some (YStr f)
                            \<and> f \<in> expansions_update_fns fns))
                  \<or> (match_timeout_update h (commands ! i)
                      \<or> (\<exists>f. map_of (commands ! i) ''func'' = Some (YStr f)
                               \<and> f \<in> timeout_update_fns fns)))
                 \<and> \<not> (Suc i < length commands
                       \<and> (match_expansions_write h (commands ! Suc i)
                          \<or> (\<exists>f. map_of (commands ! Suc i) ''func'' = Some (YStr f)
                                   \<and> f \<in> expansions_write_fns fns)))
              then [ctx @ '', command '' @ str_nat i
                      @ (case map_of (commands ! i) ''func'' of None \<Rightarrow> []
                         | Some v \<Rightarrow> '', (function call: '' @ py_str rt v @ '')'')
                      @ '' is an ''
                      @ (if match_expansions_update h (commands ! i)
                            \<or> (\<exists>f. map_of (commands ! i) ''func'' = Some (YStr f)
                                     \<and> f \<in> expansions_update_fns fns)
                         then ''expansions.update'' else ''timeout.update'')
                      @ '' command that is not immediately followed by an expansions.write call. Always call expansions.write with params: file: expansions.yml; redacted: true, (or use one of these functions: ''
                      @ set_list_str rt (expansions_write_fns fns)
                      @ '') after calling ''
                      @ (if match_expansions_update h (commands ! i)
                            \<or> (\<exists>f. map_of (commands ! i) ''func'' = Some (YStr f)
                                     \<and> f \<in> expansions_update_fns fns)
                         then ''expansions.update'' else ''timeout.update'')
                      @ ''.'']
              else [])
            [0..<length commands])"
    if "check_command_list h rt fns ctx commands = Inr errs" for errs
    using update_messages_value [OF that]
    unfolding is_update_True is_timeout_True is_write_True update_message_text .
qed

theorem update_needs_write_next_witness:
  "list_all func_hashable
     [call_f_update, cmd_shell, call_f_update, call_f_write, cmd_update, cmd_write, call_f_timeout] \<and>
   (\<exists>errs. check_command_list demo_helpers demo_runtime demo_fns_all ''Pre''
              [call_f_update, cmd_shell, call_f_update, call_f_write, cmd_update, cmd_write,
               call_f_timeout] = Inr errs \<and>
      filter is_update_message errs =
        [''Pre, command 0, (function call: f_update) is an expansions.update command that is not immediately followed by an expansions.write call. Always call expansions.write with params: file: expansions.yml; redacted: true, (or use one of these functions: <names>) after calling expansions.update.'',
         ''Pre, command 6, (function call: f_timeout) is an timeout.update command that is not immediately followed by an expansions.write call. Always call expansions.write with params: file: expansions.yml; redacted: true, (or use one of these functions: <names>) after calling timeout.update.''])"
proof -
  let ?cs = "[call_f_update, cmd_shell, call_f_update, call_f_write, cmd_update, cmd_write,
              call_f_timeout]"
  note t = update_needs_write_next [of ?cs demo_helpers demo_runtime demo_fns_all "''Pre''"]
  have h: "list_all func_hashable ?cs" by (simp add: demo_calls_hashable)
  have u: "[0..<length ?cs] = [0, 1, 2, 3, 4, 5, 6]" by (simp add: upt_rec)
  from t [THEN conjunct1] h obtain errs where
    e: "check_command_list demo_helpers demo_runtime demo_fns_all ''Pre'' ?cs = Inr errs"
    by blast
  note f = t [THEN conjunct2, THEN conjunct1, rule_format, OF e, unfolded u]
  have "filter is_update_message errs =
        [''Pre, command 0, (function call: f_update) is an expansions.update command that is not immediately followed by an expansions.write call. Always call expansions.write with params: file: expansions.yml; redacted: true, (or use one of these functions: <names>) after calling expansions.update.'',
         ''Pre, command 6, (function call: f_timeout) is an timeout.update command that is not immediately followed by an expansions.write call. Always call expansions.write with params: file: expansions.yml; redacted: true, (or use one of these functions: <names>) after calling timeout.update.'']"
    unfolding f
    by (simp add: str_nat_digits demo_runtime_def demo_matches demo_commands demo_fns_all_sets)
  with h e show ?thesis by blast
qed

text \<open>
  C3: the classification returns exactly when \<^verbatim>\<open>functions\<close> is absent or holds a
  mapping. Whenever it returns (the keys of the mapping being distinct, as those of a
  Python dict are), for each function definition of the document: the function is in
  \<open>expansions_write_fns\<close> exactly when its body is a dict that matches the
  expansions-write predicate; in \<open>subprocess_exec_fns\<close> exactly when its body is a
  dict that fails that predicate and matches the script-execution one; and so on in the
  order expansions-update, timeout-update. So a list-form body, and a dict body that
  matches nothing, put the function in no set; no other name is in any set; and the
  four sets are pairwise disjoint.
\<close>

theorem classification_first_match_only:
  "((\<exists>fns. classify_functions h doc = Inr fns) \<longleftrightarrow>
      (case map_of doc ''functions'' of None \<Rightarrow> True | Some (YDict _) \<Rightarrow> True | Some _ \<Rightarrow> False))
   \<and> (\<forall>fns. classify_functions h doc = Inr fns \<and> distinct (map fst (function_defs doc)) \<longrightarrow>
      (\<forall>f v. (f, v) \<in> set (function_defs doc) \<longrightarrow>
          (f \<in> expansions_write_fns fns \<longleftrightarrow> (\<exists>b. v = YDict b \<and> match_expansions_write h b))
        \<and> (f \<in> subprocess_exec_fns fns \<longleftrightarrow>
             (\<exists>b. v = YDict b \<and> \<not> match_expansions_write h b \<and> match_subprocess_exec h b))
        \<and> (f \<in> expansions_update_fns fns \<longleftrightarrow>
             (\<exists>b. v = YDict b \<and> \<not> match_expansions_write h b \<and> \<not> match_subprocess_exec h b
                  \<and> match_expansions_update h b))
        \<and> (f \<in> timeout_update_fns fns \<longleftrightarrow>
             (\<exists>b. v = YDict b \<and> \<not> match_expansions_write h b \<and> \<not> match_subprocess_exec h b
                  \<and> \<not> match_expansions_update h b \<and> match_timeout_update h b)))
      \<and> expansions_write_fns fns \<union> subprocess_exec_fns fns \<union> expansions_update_fns fns
            \<union> timeout_update_fns fns \<subseteq> fst ` set (function_defs doc)
      \<and> expansions_write_fns fns \<inter> subprocess_exec_fns fns = {}
      \<and> expansions_write_fns fns \<inter> expansions_update_fns fns = {}
      \<and> expansions_write_fns fns \<inter> timeout_update_fns fns = {}
      \<and> subprocess_exec_fns fns \<inter> expansions_update_fns fns = {}
      \<and> subprocess_exec_fns fns \<inter> timeout_update_fns fns = {}
      \<and> expansions_update_fns fns \<inter> timeout_update_fns fns = {})"
proof (rule conjI [OF classify_functions_returns], intro allI impI, elim conjE)
  fix fns
  assume c: "classify_functions h doc = Inr fns" and d: "distinct (map fst (function_defs doc))"
  note w = classify_functions_Inr(1) [OF c] and e = classify_functions_Inr(2) [OF c]
    and u = classify_functions_Inr(3) [OF c] and t = classify_functions_Inr(4) [OF c]
  note same = distinct_keys_same_body [OF d]
  have per: "\<forall>f v. (f, v) \<in> set (function_defs doc) \<longrightarrow>
          (f \<in> expansions_write_fns fns \<longleftrightarrow> (\<exists>b. v = YDict b \<and> match_expansions_write h b))
        \<and> (f \<in> subprocess_exec_fns fns \<longleftrightarrow>
             (\<exists>b. v = YDict b \<and> \<not> match_expansions_write h b \<and> match_subprocess_exec h b))
        \<and> (f \<in> expansions_update_fns fns \<longleftrightarrow>
             (\<exists>b. v = YDict b \<and> \<not> match_expansions_write h b \<and> \<not> match_subprocess_exec h b
                  \<and> match_expansions_update h b))
        \<and> (f \<in> timeout_update_fns fns \<longleftrightarrow>
             (\<exists>b. v = YDict b \<and> \<not> match_expansions_write h b \<and> \<not> match_subprocess_exec h b
                  \<and> \<not> match_expansions_update h b \<and> match_timeout_update h b))"
    unfolding w e u t using same by blast
  have sub: "expansions_write_fns fns \<union> subprocess_exec_fns fns \<union> expansions_update_fns fns
          \<union> timeout_update_fns fns \<subseteq> fst ` set (function_defs doc)"
    unfolding w e u t by force
  have d1: "expansions_write_fns fns \<inter> subprocess_exec_fns fns = {}"
    unfolding w e using same by blast
  have d2: "expansions_write_fns fns \<inter> expansions_update_fns fns = {}"
    unfolding w u using same by blast
  have d3: "expansions_write_fns fns \<inter> timeout_update_fns fns = {}"
    unfolding w t using same by blast
  have d4: "subprocess_exec_fns fns \<inter> expansions_update_fns fns = {}"
    unfolding e u using same by blast
  have d5: "subprocess_exec_fns fns \<inter> timeout_update_fns fns = {}"
    unfolding e t using same by blast
  have d6: "expansions_update_fns fns \<inter> timeout_update_fns fns = {}"
    unfolding u t using same by blast
  from per sub d1 d2 d3 d4 d5 d6 show
    "(\<forall>f v. (f, v) \<in> set (function_defs doc) \<longrightarrow>
          (f \<in> expansions_write_fns fns \<longleftrightarrow> (\<exists>b. v = YDict b \<and> match_expansions_write h b))
        \<and> (f \<in> subprocess_exec_fns fns \<longleftrightarrow>
             (\<exists>b. v = YDict b \<and> \<not> match_expansions_write h b \<and> match_subprocess_exec h b))
        \<and> (f \<in> expansions_update_fns fns \<longleftrightarrow>
             (\<exists>b. v = YDict b \<and> \<not> match_expansions_write h b \<and> \<not> match_subprocess_exec h b
                  \<and> match_expansions_update h b))
        \<and> (f \<in> timeout_update_fns fns \<longleftrightarrow>
             (\<exists>b. v = YDict b \<and> \<not> match_expansions_write h b \<and> \<not> match_subprocess_exec h b
                  \<and> \<not> match_expansions_update h b \<and> match_timeout_update h b)))
      \<and> expansions_write_fns fns \<union> subprocess_exec_fns fns \<union> expansions_update_fns fns
            \<union> timeout_update_fns fns \<subseteq> fst ` set (function_defs doc)
      \<and> expansions_write_fns fns \<inter> subprocess_exec_fns fns = {}
      \<and> expansions_write_fns fns \<inter> expansions_update_fns fns = {}
      \<and> expansions_write_fns fns \<inter> timeout_update_fns fns = {}
      \<and> subprocess_exec_fns fns \<inter> expansions_update_fns fns = {}
      \<and> subprocess_exec_fns fns \<inter> timeout_update_fns fns = {}
      \<and> expansions_update_fns fns \<inter> timeout_update_fns fns = {}"
    by blast
qed

theorem classification_first_match_only_witness:
  "distinct (map fst (function_defs demo_doc)) \<and>
   (\<exists>fns. classify_functions demo_helpers demo_doc = Inr fns \<and>
      expansions_write_fns fns = {''f_write''} \<and> subprocess_exec_fns fns = {''f_exec''} \<and>
      expansions_update_fns fns = {} \<and> timeout_update_fns fns = {} \<and>
      expansions_write_fns fns \<inter> subprocess_exec_fns fns = {})"
proof -
  note t = classification_first_match_only [of demo_helpers demo_doc]
  have b: "distinct (map fst (function_defs demo_doc))"
    by (simp add: demo_function_defs demo_functions_def)
  have a: "case map_of demo_doc ''functions'' of None \<Rightarrow> True | Some (YDict _) \<Rightarrow> True
           | Some _ \<Rightarrow> False"
    by (simp add: demo_doc_def)
  from t [THEN conjunct1] a obtain fns where c: "classify_functions demo_helpers demo_doc = Inr fns"
    by blast
  note t2 = t [THEN conjunct2, rule_format, OF conjI [OF c b]]
  have d: "expansions_write_fns fns \<inter> subprocess_exec_fns fns = {}"
    using t2 [THEN conjunct2, THEN conjunct2, THEN conjunct1] .
  have f: "fns = demo_fns" using c demo_classify by simp
  have w: "expansions_write_fns fns = {''f_write''}" "subprocess_exec_fns fns = {''f_exec''}"
    "expansions_update_fns fns = {}" "timeout_update_fns fns = {}"
    by (simp_all add: f demo_fns_def)
  from b c w d show ?thesis by blast
qed



text \<open>
  C8: whenever the rule returns, its result is the results of the command-list checks,
  list by list in the order of iteration, followed by the messages of the call-site
  check (every message about arguments comes after every message of a command-list
  check). For one command list, whenever the scan returns, the result of the checker is
  the output of the scan followed by what the test after the loop adds, and the output
  after the first \<open>k\<close> steps of the scan is a prefix of its final output, for every
  \<open>k\<close>: messages stand in the order in which the steps appended them. The rule and
  the scan return on the inputs described for C4 and C1.
\<close>

theorem errors_in_detection_order:
  "(wf_document h doc \<longrightarrow> (\<exists>errs. call h rt config doc = Inr errs))
   \<and> (\<forall>errs. call h rt config doc = Inr errs \<longrightarrow>
        (\<exists>fns. classify_functions h doc = Inr fns \<and>
           errs = concat (map (list_errors h rt fns) (iterate_command_lists h doc))
                  @ concat (map (site_errors rt fns) (iterate_fn_calls_context h doc)) \<and>
           list_all (\<lambda>m. \<not> is_dangerous_message m)
             (concat (map (list_errors h rt fns) (iterate_command_lists h doc))) \<and>
           list_all is_dangerous_message
             (concat (map (site_errors rt fns) (iterate_fn_calls_context h doc)))))
   \<and> (list_all func_hashable commands \<longrightarrow>
        (\<exists>st. scan_commands h rt fns' ctx commands = Inr st))
   \<and> (\<forall>st. scan_commands h rt fns' ctx commands = Inr st \<longrightarrow>
        check_command_list h rt fns' ctx commands = Inr (out st @ fallback rt fns' ctx st) \<and>
        (\<forall>k\<le>length commands.
           \<exists>st_k. for_each (scan_step h rt fns' ctx commands) init_scan_state
                     (take k (enumerate 0 commands)) = Inr st_k
                  \<and> prefix (out st_k) (out st)))"
proof (intro conjI allI impI)
  show "\<exists>errs. call h rt config doc = Inr errs" if "wf_document h doc"
    using call_total [OF that] .
  show "\<exists>fns. classify_functions h doc = Inr fns \<and>
           errs = concat (map (list_errors h rt fns) (iterate_command_lists h doc))
                  @ concat (map (site_errors rt fns) (iterate_fn_calls_context h doc)) \<and>
           list_all (\<lambda>m. \<not> is_dangerous_message m)
             (concat (map (list_errors h rt fns) (iterate_command_lists h doc))) \<and>
           list_all is_dangerous_message
             (concat (map (site_errors rt fns) (iterate_fn_calls_context h doc)))"
    if "call h rt config doc = Inr errs" for errs
    using call_Inr_kinds [OF that] .
  show "\<exists>st. scan_commands h rt fns' ctx commands = Inr st" if "list_all func_hashable commands"
    using scan_commands_total [OF that] .
  show "check_command_list h rt fns' ctx commands = Inr (out st @ fallback rt fns' ctx st)"
    if "scan_commands h rt fns' ctx commands = Inr st" for st
    using check_command_list_scan [OF that] .
  show "\<exists>st_k. for_each (scan_step h rt fns' ctx commands) init_scan_state
                     (take k (enumerate 0 commands)) = Inr st_k
                  \<and> prefix (out st_k) (out st)"
    if "scan_commands h rt fns' ctx commands = Inr st" and "k \<le> length commands" for st k
    using scan_prefixes [OF that] .
qed

theorem errors_in_detection_order_witness:
  "wf_document demo_helpers demo_doc \<and>
   list_all func_hashable [call_exec_with_vars, cmd_update] \<and>
   call demo_helpers demo_runtime [] demo_doc =
     Inr [out_message_subprocess demo_runtime demo_fns
            (context_add_fn demo_runtime (command_context ''Pre'' 0) (Some call_exec_with_vars)),
          out_message_expansions_update demo_runtime demo_fns
            (context_add_fn demo_runtime (command_context ''Pre'' 1) (Some cmd_update))
            ''expansions.update'',
          out_message_dangerous_function demo_runtime demo_fns ''Pre''] \<and>
   (\<exists>st. scan_commands demo_helpers demo_runtime demo_fns ''Pre'' [call_exec_with_vars, cmd_update] = Inr st \<and>
      check_command_list demo_helpers demo_runtime demo_fns ''Pre'' [call_exec_with_vars, cmd_update] =
        Inr (out st @ fallback demo_runtime demo_fns ''Pre'' st) \<and>
      (\<exists>st1. for_each (scan_step demo_helpers demo_runtime demo_fns ''Pre'' [call_exec_with_vars, cmd_update])
                init_scan_state [(0, call_exec_with_vars)] = Inr st1 \<and>
             prefix (out st1) (out st)))"
proof -
  let ?cs = "[call_exec_with_vars, cmd_update]"
  note t = errors_in_detection_order [where h = demo_helpers and doc = demo_doc
      and rt = demo_runtime and config = "[]" and fns' = demo_fns and ctx = "''Pre''"
      and commands = ?cs]
  have h: "list_all func_hashable ?cs"
    by (simp add: func_hashable_def call_exec_with_vars_def cmd_update_def)
  from t demo_wf obtain errs where r0: "call demo_helpers demo_runtime [] demo_doc = Inr errs"
    by blast
  from t r0 obtain fns where c: "classify_functions demo_helpers demo_doc = Inr fns"
    and r: "errs =
        concat (map (list_errors demo_helpers demo_runtime fns) (iterate_command_lists demo_helpers demo_doc))
        @ concat (map (site_errors demo_runtime fns) (iterate_fn_calls_context demo_helpers demo_doc))"
    by blast
  from t h obtain st where s: "scan_commands demo_helpers demo_runtime demo_fns ''Pre'' ?cs = Inr st"
    by blast
  from t s have k: "check_command_list demo_helpers demo_runtime demo_fns ''Pre'' ?cs =
        Inr (out st @ fallback demo_runtime demo_fns ''Pre'' st)"
    and p: "\<forall>k\<le>length ?cs.
             \<exists>st_k. for_each (scan_step demo_helpers demo_runtime demo_fns ''Pre'' ?cs) init_scan_state
                       (take k (enumerate 0 ?cs)) = Inr st_k
                    \<and> prefix (out st_k) (out st)"
    by blast+
  have f: "fns = demo_fns" using c demo_classify by simp
  have r': "call demo_helpers demo_runtime [] demo_doc =
     Inr [out_message_subprocess demo_runtime demo_fns
            (context_add_fn demo_runtime (command_context ''Pre'' 0) (Some call_exec_with_vars)),
          out_message_expansions_update demo_runtime demo_fns
            (context_add_fn demo_runtime (command_context ''Pre'' 1) (Some cmd_update))
            ''expansions.update'',
          out_message_dangerous_function demo_runtime demo_fns ''Pre'']"
    unfolding r0 r f demo_lists demo_sites
    by (simp add: demo_list_errors site_errors_def demo_dangerous)
  from p have "\<exists>st_k. for_each (scan_step demo_helpers demo_runtime demo_fns ''Pre'' ?cs) init_scan_state
                       (take 1 (enumerate 0 ?cs)) = Inr st_k
                    \<and> prefix (out st_k) (out st)"
    by (rule allE [where x = 1]) simp
  then have p1: "\<exists>st1. for_each (scan_step demo_helpers demo_runtime demo_fns ''Pre'' ?cs)
                init_scan_state [(0, call_exec_with_vars)] = Inr st1 \<and> prefix (out st1) (out st)"
    by simp
  from demo_wf h r' s k p1 show ?thesis by blast
qed

text \<open>
  C9: the test after the loop (lines 190 to 202) never appends: the checker with that
  branch removed returns what the full checker returns, error or list, for every command
  list. This holds whether or not a command satisfies both the script-execution and the
  expansions-write predicate: at the first script execution the \<^verbatim>\<open>elif\<close> of line
  153 is skipped, so an unwarned first execution always has an earlier first write.
\<close>

theorem fallback_branch_is_dead:
  "check_command_list h rt fns ctx commands = check_command_list_no_fallback h rt fns ctx commands"
proof (cases "scan_commands h rt fns ctx commands")
  case (Inl e)
  then show ?thesis by (simp add: check_command_list_def check_command_list_no_fallback_def)
next
  case (Inr st)
  then show ?thesis
    by (simp add: check_command_list_def check_command_list_no_fallback_def
        scan_commands_fallback [OF Inr])
qed

theorem fallback_branch_is_dead_witness:
  "check_command_list demo_helpers demo_runtime empty_fn_sets ''Pre'' [cmd_exec, cmd_write] =
     check_command_list_no_fallback demo_helpers demo_runtime empty_fn_sets ''Pre'' [cmd_exec, cmd_write]
   \<and> check_command_list demo_helpers demo_runtime empty_fn_sets ''Pre'' [cmd_exec, cmd_write] =
       Inr [out_message_subprocess demo_runtime empty_fn_sets
              (context_add_fn demo_runtime (command_context ''Pre'' 0) (Some cmd_exec))]"
proof -
  have "check_command_list_no_fallback demo_helpers demo_runtime empty_fn_sets ''Pre''
          [cmd_exec, cmd_write] =
       Inr [out_message_subprocess demo_runtime empty_fn_sets
              (context_add_fn demo_runtime (command_context ''Pre'' 0) (Some cmd_exec))]"
    by (simp add: check_command_list_no_fallback_def scan_commands_def scan_step_def
        track_first_def warn_subprocess_def update_check_def init_scan_state_def)
  then show ?thesis
    using fallback_branch_is_dead [of demo_helpers demo_runtime empty_fn_sets "''Pre''"
        "[cmd_exec, cmd_write]"]
    by simp
qed

text \<open>
  C10: the result of the rule is the same for any two config mappings.
\<close>

theorem call_ignores_config:
  "call h rt config1 doc = call h rt config2 doc"
  by (simp add: call_def)

text \<open>
  C5: the option \<^verbatim>\<open>regex\<close> does not reach the classification: a config with any
  pattern gives what the default config gives, on every document.
\<close>

theorem regex_option_has_no_effect:
  "call h rt [(''regex'', YStr r)] doc = call h rt defaults doc"
  by (simp add: call_def)

text \<open>
  C6: on a document whose \<^verbatim>\<open>functions\<close> key holds no mapping (here the YAML null
  of an empty \<^verbatim>\<open>functions:\<close> entry), line 208 raises \<^verbatim>\<open>AttributeError\<close> and the
  rule returns no list.
\<close>

theorem call_raises_on_null_functions:
  "call h rt config [(''functions'', YNone)] = Inl AttributeError"
  by (simp add: call_def classify_functions_def)

section \<open>A further property\<close>

text \<open>
  X1: without a \<^verbatim>\<open>functions\<close> key the classification is skipped (the four sets
  stay empty), and the rule returns a list on every document where no statement of its
  body raises.
\<close>

theorem rule_returns_when_nothing_raises:
  "(map_of doc ''functions'' = None \<longrightarrow> classify_functions h doc = Inr empty_fn_sets)
   \<and> (wf_document h doc \<longrightarrow> (\<exists>errs. call h rt config doc = Inr errs))"
  using classify_functions_absent call_total by blast

theorem rule_returns_when_nothing_raises_witness:
  "map_of [(''pre'', YList [YDict cmd_write, YDict cmd_exec])] ''functions'' = None \<and>
   classify_functions demo_helpers [(''pre'', YList [YDict cmd_write, YDict cmd_exec])] =
     Inr empty_fn_sets \<and>
   wf_document demo_helpers [(''pre'', YList [YDict cmd_write, YDict cmd_exec])] \<and>
   call demo_helpers demo_runtime [] [(''pre'', YList [YDict cmd_write, YDict cmd_exec])] = Inr []"
proof -
  let ?doc = "[(''pre'', YList [YDict cmd_write, YDict cmd_exec])]"
  note t = rule_returns_when_nothing_raises [of ?doc demo_helpers demo_runtime "[]"]
  have a: "map_of ?doc ''functions'' = None" by simp
  have l: "iterate_command_lists demo_helpers ?doc = [(''Pre'', CommandsList [cmd_write, cmd_exec])]"
    by (simp add: demo_helpers_def)
  have s: "iterate_fn_calls_context demo_helpers ?doc = []"
    by (simp add: demo_helpers_def cmd_write_def cmd_exec_def)
  have w: "wf_document demo_helpers ?doc"
    unfolding wf_document_def l s by simp
  from t a have c: "classify_functions demo_helpers ?doc = Inr empty_fn_sets" by blast
  from t w obtain errs where r: "call demo_helpers demo_runtime [] ?doc = Inr errs" by blast
  have k: "check_command_list demo_helpers demo_runtime empty_fn_sets ''Pre'' [cmd_write, cmd_exec] = Inr []"
    by (simp add: check_command_list_def scan_commands_def scan_step_def track_first_def
        warn_subprocess_def update_check_def init_scan_state_def fallback_def)
  have "call demo_helpers demo_runtime [] ?doc = Inr []"
    unfolding call_def c l s by (simp add: check_lists_step_def k)
  with a c w show ?thesis by blast
qed

end
